theory Spec2Isabelle
  imports
    Complex_Main
    "HOL-Library.Char_ord"
    "HOL-Library.List_Lexorder"
    "HOL-Library.Log_Nat"
    "HOL-Library.AList"
    "HOL-Library.Multiset"
begin

section \<open>LegoStats: the aggregation and selection logic of \<^verbatim>\<open>window.py\<close>\<close>

text \<open>
  The development embeds the non-graphical logic of the class \<^verbatim>\<open>Window\<close>: the theme
  lookup \<^verbatim>\<open>getTheme\<close>, the construction of the displayed rows \<^verbatim>\<open>complete\<close>, the
  totals of \<^verbatim>\<open>updateStatusBar\<close>, and the handlers \<^verbatim>\<open>deselectSet\<close>, \<^verbatim>\<open>removeSet\<close>,
  \<^verbatim>\<open>getSet\<close>/\<^verbatim>\<open>addSet\<close> and \<^verbatim>\<open>save\<close>.

  Conventions of the embedding.
  \<^item> A Python \<^verbatim>\<open>str\<close> is a \<^typ>\<open>string\<close>; a \<^typ>\<open>char\<close> stands for a code point below 256,
    and the order on strings is the lexicographic order on code points, as Python's.
  \<^item> A Python \<^verbatim>\<open>int\<close> is an \<^typ>\<open>int\<close>.
  \<^item> A finite Python \<^verbatim>\<open>float\<close> is the rational number it denotes.
  \<^item> An exception that leaves a method is a value \<open>Inl e\<close>; a call that never returns is
    \<open>None\<close>.
  \<^item> Of the widgets only the texts they hold are kept: colours, hidden rows, docks,
    placeholder messages and the order in which the toolkit may re-sort a table are
    not part of the state.
\<close>

subsection \<open>Python values and built-ins\<close>

datatype error =
    KeyError | TypeError | ValueError | UnboundLocalError | OverflowError
  | ZeroDivisionError | FetchError

text \<open>Plain bind of the exception monad.\<close>

definition bind_err :: "error + 'a \<Rightarrow> ('a \<Rightarrow> error + 'b) \<Rightarrow> error + 'b" where
  "bind_err m f = (case m of Inl e \<Rightarrow> Inl e | Inr x \<Rightarrow> f x)"

text \<open>Evaluating \<^verbatim>\<open>[f(x) for x in xs]\<close>: the first exception ends the comprehension.\<close>

fun map_err :: "('a \<Rightarrow> error + 'b) \<Rightarrow> 'a list \<Rightarrow> error + 'b list" where
  "map_err f [] = Inr []"
| "map_err f (x # xs) =
     (case f x of
        Inl e \<Rightarrow> Inl e
      | Inr y \<Rightarrow> (case map_err f xs of Inl e \<Rightarrow> Inl e | Inr ys \<Rightarrow> Inr (y # ys)))"

subsubsection \<open>\<^verbatim>\<open>str(int)\<close> and \<^verbatim>\<open>int(str)\<close>\<close>

definition is_digit :: "char \<Rightarrow> bool" where
  "is_digit c = (CHR ''0'' \<le> c \<and> c \<le> CHR ''9'')"

definition digit_val :: "char \<Rightarrow> int" where
  "digit_val c = of_char c - 48"

definition digit_char :: "int \<Rightarrow> char" where
  "digit_char d = char_of (48 + d)"

text \<open>The decimal digits of a non-negative integer.\<close>

function str_digits :: "int \<Rightarrow> string" where
  "str_digits n =
     (if n < 10 then [digit_char n] else str_digits (n div 10) @ [digit_char (n mod 10)])"
  by pat_completeness auto
termination
  by (relation "measure nat") auto

declare str_digits.simps [simp del]

text \<open>\<^verbatim>\<open>str(i)\<close> for an integer \<open>i\<close>.\<close>

definition str_int :: "int \<Rightarrow> string" where
  "str_int i = (if i < 0 then CHR ''-'' # str_digits (- i) else str_digits i)"

text \<open>
  The white space that \<^verbatim>\<open>int()\<close> and \<^verbatim>\<open>str.strip()\<close> remove, among the code points
  below 256: \<^verbatim>\<open>\t \n \v \f \r\<close>, \<^verbatim>\<open>\x1c\<close> to \<^verbatim>\<open>\x1f\<close>, the blank, \<^verbatim>\<open>\x85\<close> and \<^verbatim>\<open>\xa0\<close>.
\<close>

definition is_space :: "char \<Rightarrow> bool" where
  "is_space c =
     (let k = (of_char c :: nat)
      in (9 \<le> k \<and> k \<le> 13) \<or> (28 \<le> k \<and> k \<le> 32) \<or> k = 133 \<or> k = 160)"

definition strip :: "string \<Rightarrow> string" where
  "strip s = rev (dropWhile is_space (rev (dropWhile is_space s)))"

text \<open>
  The digits of an integer literal after its first digit: digits, each optionally
  preceded by one underscore.
\<close>

fun int_digits :: "int \<Rightarrow> string \<Rightarrow> int option" where
  "int_digits acc [] = Some acc"
| "int_digits acc [c] = (if is_digit c then Some (acc * 10 + digit_val c) else None)"
| "int_digits acc (c # d # cs) =
     (if is_digit c then int_digits (acc * 10 + digit_val c) (d # cs)
      else if c = CHR ''_'' \<and> is_digit d then int_digits (acc * 10 + digit_val d) cs
      else None)"

definition int_unsigned :: "string \<Rightarrow> int option" where
  "int_unsigned s =
     (case s of
        [] \<Rightarrow> None
      | c # cs \<Rightarrow> (if is_digit c then int_digits (digit_val c) cs else None))"

text \<open>
  \<^verbatim>\<open>int(text)\<close> in base 10: surrounding white space, an optional sign, digits. (The
  interpreter's optional limit on the number of digits is not modelled.)
\<close>

definition py_int :: "string \<Rightarrow> error + int" where
  "py_int text =
     (case strip text of
        [] \<Rightarrow> Inl ValueError
      | c # cs \<Rightarrow>
          (if c = CHR ''-'' then
             (case int_unsigned cs of None \<Rightarrow> Inl ValueError | Some n \<Rightarrow> Inr (- n))
           else if c = CHR ''+'' then
             (case int_unsigned cs of None \<Rightarrow> Inl ValueError | Some n \<Rightarrow> Inr n)
           else
             (case int_unsigned (c # cs) of None \<Rightarrow> Inl ValueError | Some n \<Rightarrow> Inr n)))"

subsubsection \<open>\<^verbatim>\<open>str.splitlines\<close>, \<^verbatim>\<open>str.join\<close>, \<^verbatim>\<open>str.replace\<close>\<close>

text \<open>
  The line boundaries of \<^verbatim>\<open>str.splitlines\<close> below code point 256: \<^verbatim>\<open>\n\<close>, \<^verbatim>\<open>\v\<close>, \<^verbatim>\<open>\f\<close>,
  \<^verbatim>\<open>\r\<close>, \<^verbatim>\<open>\x1c\<close>, \<^verbatim>\<open>\x1d\<close>, \<^verbatim>\<open>\x1e\<close> and \<^verbatim>\<open>\x85\<close>; \<^verbatim>\<open>\r\n\<close> is one boundary.
\<close>

definition is_linebreak :: "char \<Rightarrow> bool" where
  "is_linebreak c =
     (let k = (of_char c :: nat)
      in (10 \<le> k \<and> k \<le> 13) \<or> (28 \<le> k \<and> k \<le> 30) \<or> k = 133)"

text \<open>After \<^verbatim>\<open>\r\<close>, a directly following \<^verbatim>\<open>\n\<close> belongs to the same boundary.\<close>

definition skip_lf :: "string \<Rightarrow> string" where
  "skip_lf cs = (case cs of [] \<Rightarrow> [] | d # ds \<Rightarrow> if d = CHR 0x0A then ds else d # ds)"

text \<open>\<open>cur\<close> holds the characters of the line being read, last one first.\<close>

function splitlines_from :: "string \<Rightarrow> string \<Rightarrow> string list" where
  "splitlines_from cur [] = (if cur = [] then [] else [rev cur])"
| "splitlines_from cur (c # cs) =
     (if c = CHR 0x0D then rev cur # splitlines_from [] (skip_lf cs)
      else if is_linebreak c then rev cur # splitlines_from [] cs
      else splitlines_from (c # cur) cs)"
  by pat_completeness auto
termination
  by (relation "measure (\<lambda>(cur, s). length s)") (auto simp: skip_lf_def less_Suc_eq_le split: list.splits)

definition splitlines :: "string \<Rightarrow> string list" where
  "splitlines s = splitlines_from [] s"

text \<open>\<^verbatim>\<open>sep.join(xs)\<close>.\<close>

fun join :: "string \<Rightarrow> string list \<Rightarrow> string" where
  "join sep [] = []"
| "join sep [x] = x"
| "join sep (x # y # ys) = x @ sep @ join sep (y # ys)"

subsubsection \<open>Floats: \<^verbatim>\<open>float(str)\<close>, \<^verbatim>\<open>int / int\<close>, \<^verbatim>\<open>round\<close>\<close>

text \<open>Rounding a rational to the nearest integer, ties to the even one.\<close>

definition round_half_even :: "rat \<Rightarrow> int" where
  "round_half_even x =
     (let f = \<lfloor>x\<rfloor>; d = x - of_int f
      in if d < 1 / 2 then f else if 1 / 2 < d then f + 1 else if even f then f else f + 1)"

definition pow2 :: "int \<Rightarrow> rat" where
  "pow2 k = (if 0 \<le> k then 2 ^ nat k else 1 / 2 ^ nat (- k))"

text \<open>The exponent \<open>e\<close> with \<open>2 ^ e \<le> x < 2 ^ (e + 1)\<close>, for a positive \<open>x\<close>.\<close>

definition ilog2 :: "rat \<Rightarrow> int" where
  "ilog2 x =
     (let (p, q) = quotient_of x; e0 = bitlen p - bitlen q
      in if x < pow2 e0 then e0 - 1 else e0)"

text \<open>
  A float that is not negative infinity or a NaN: a rational, or positive infinity. The
  order is the one of Python's comparison operators on such floats.
\<close>

datatype pyfloat = Finite rat | Infinity

instantiation pyfloat :: linorder
begin

fun less_eq_pyfloat :: "pyfloat \<Rightarrow> pyfloat \<Rightarrow> bool" where
  "less_eq_pyfloat (Finite x) (Finite y) = (x \<le> y)"
| "less_eq_pyfloat (Finite x) Infinity = True"
| "less_eq_pyfloat Infinity (Finite y) = False"
| "less_eq_pyfloat Infinity Infinity = True"

definition less_pyfloat :: "pyfloat \<Rightarrow> pyfloat \<Rightarrow> bool" where
  "less_pyfloat a b = (a \<le> b \<and> \<not> b \<le> a)"

instance
proof
  fix x y z :: pyfloat
  show "(x < y) = (x \<le> y \<and> \<not> y \<le> x)"
    by (simp add: less_pyfloat_def)
  show "x \<le> x"
    by (cases x) simp_all
  show "x \<le> y \<Longrightarrow> y \<le> z \<Longrightarrow> x \<le> z"
    by (cases x; cases y; cases z) simp_all
  show "x \<le> y \<Longrightarrow> y \<le> x \<Longrightarrow> x = y"
    by (cases x; cases y) simp_all
  show "x \<le> y \<or> y \<le> x"
    by (cases x; cases y) auto
qed

end

text \<open>
  The IEEE 754 binary64 number nearest to a positive rational (ties to even): 53
  significant bits, the spacing \<open>2 ^ - 1074\<close> of the subnormal numbers, and infinity when
  the rounded value \<open>m * 2 ^ q\<close> reaches \<open>2 ^ 1024\<close> (as \<open>m \<le> 2 ^ 53\<close>, that is when
  \<open>972 \<le> q\<close>, or \<open>q = 971\<close> and \<open>m = 2 ^ 53\<close>).
\<close>

definition double_of_rat :: "rat \<Rightarrow> pyfloat" where
  "double_of_rat x =
     (if x \<le> 0 then Finite 0
      else let q = max (ilog2 x - 52) (- 1074);
               m = round_half_even (x / pow2 q)
           in if 972 \<le> q \<or> (q = 971 \<and> 2 ^ 53 \<le> m) then Infinity
              else Finite (of_int m * pow2 q))"

text \<open>Reading a run of decimal digits: the number read so far and the rest of the text.\<close>

fun read_digits :: "int \<Rightarrow> string \<Rightarrow> int \<times> string" where
  "read_digits acc [] = (acc, [])"
| "read_digits acc (c # cs) =
     (if is_digit c then read_digits (acc * 10 + digit_val c) cs else (acc, c # cs))"

text \<open>
  \<^verbatim>\<open>float(text)\<close> for the decimal literals \<^verbatim>\<open>D\<close>, \<^verbatim>\<open>D.\<close>, \<^verbatim>\<open>D.D\<close> and \<^verbatim>\<open>.D\<close> (\<^verbatim>\<open>D\<close> a
  non-empty run of digits). Every other text gives \<open>ValueError\<close> here; Python does the
  same except for the forms this model leaves out: surrounding white space, a sign,
  underscores between digits, an exponent, and the words \<^verbatim>\<open>inf\<close>, \<^verbatim>\<open>infinity\<close> and
  \<^verbatim>\<open>nan\<close>.
\<close>

definition py_float :: "string \<Rightarrow> error + pyfloat" where
  "py_float text =
     (let (ip, rest) = read_digits 0 text;
          nint = length text - length rest
      in case rest of
           [] \<Rightarrow> (if nint = 0 then Inl ValueError else Inr (double_of_rat (of_int ip)))
         | c # fr \<Rightarrow>
             (if c \<noteq> CHR ''.'' then Inl ValueError
              else let (fp, rest') = read_digits 0 fr;
                       nfrac = length fr - length rest'
                   in if rest' \<noteq> [] \<or> nint + nfrac = 0 then Inl ValueError
                      else Inr (double_of_rat (of_int ip + of_int fp / 10 ^ nfrac))))"

text \<open>\<^verbatim>\<open>text.replace("-", ".")\<close>.\<close>

definition replace_dash :: "string \<Rightarrow> string" where
  "replace_dash text = map (\<lambda>c. if c = CHR ''-'' then CHR ''.'' else c) text"

text \<open>\<^verbatim>\<open>def readFloat(text): return float(text.replace("-", "."))\<close>\<close>

definition readFloat :: "string \<Rightarrow> error + pyfloat" where
  "readFloat text = py_float (replace_dash text)"

text \<open>\<^verbatim>\<open>IntTableWidgetItem.__lt__\<close>: the comparison of two cell texts.\<close>

definition item_lt :: "string \<Rightarrow> string \<Rightarrow> error + bool" where
  "item_lt a b =
     bind_err (readFloat a) (\<lambda>x. bind_err (readFloat b) (\<lambda>y. Inr (x < y)))"

text \<open>
  \<^verbatim>\<open>a / b\<close> on integers: the correctly rounded quotient, \<open>OverflowError\<close> when it is
  too large for a float.
\<close>

definition py_truediv :: "int \<Rightarrow> int \<Rightarrow> error + rat" where
  "py_truediv a b =
     (if b = 0 then Inl ZeroDivisionError
      else let r = of_int a / of_int b
           in case double_of_rat \<bar>r\<bar> of
                Infinity \<Rightarrow> Inl OverflowError
              | Finite v \<Rightarrow> Inr (sgn r * v))"

text \<open>\<^verbatim>\<open>round(x)\<close> of a finite float.\<close>

definition py_round :: "rat \<Rightarrow> int" where
  "py_round x = round_half_even x"

subsection \<open>The catalogue and the collection\<close>

text \<open>
  \<^verbatim>\<open>self.sets[number] = [name, year, themeId, totalParts]\<close>, read from
  \<^verbatim>\<open>ressources/sets.json\<close>.
\<close>

record set_entry =
  set_name :: string
  set_year :: int
  set_theme :: int
  set_parts :: int

text \<open>An entry of \<^verbatim>\<open>ColorDialog.colors\<close>.\<close>

record color =
  color_id :: int
  color_name :: string
  color_rgb :: "int list"
  color_group :: int

text \<open>
  The reference data, loaded once: \<^verbatim>\<open>self.sets\<close>, \<^verbatim>\<open>self.themes\<close> (theme id to its name
  and the id of its parent), \<^verbatim>\<open>self.mainThemes\<close> (theme id to its name and a second
  component \<open>'c\<close>, which \<^verbatim>\<open>updateSetItem\<close> uses as the colour of the Theme cell) and the
  colours. The keys of a JSON object are strings; the parent id of a theme is used as
  such a key and is therefore a string too.
\<close>

record 'c catalog =
  sets :: "string \<rightharpoonup> set_entry"
  themes :: "string \<rightharpoonup> string \<times> string"
  mainThemes :: "string \<rightharpoonup> string \<times> 'c"
  colors :: "color list"

text \<open>
  The value stored under a set number in \<^verbatim>\<open>self.originalData\<close>:
  \<^verbatim>\<open>[qty, boxes, instructions, weight, missing parts, missing figs, notes]\<close>, a missing
  part being \<^verbatim>\<open>(number, colour id, quantity)\<close> and a missing fig \<^verbatim>\<open>(number, quantity)\<close>.
\<close>

record stat =
  st_qty :: int
  st_bxs :: int
  st_ins :: int
  st_wgh :: "int option"
  st_mprts :: "(string \<times> int \<times> int) list"
  st_mfigs :: "(string \<times> int) list"
  st_nts :: string

text \<open>
  The weight cell of a displayed row: \<^verbatim>\<open>complete\<close> stores \<^verbatim>\<open>wgh or ""\<close>, \<^verbatim>\<open>getSet\<close> stores
  the weight it fetched or \<^verbatim>\<open>None\<close>.
\<close>

datatype weight = Grams int | Blank | PyNone

text \<open>
  A row of \<^verbatim>\<open>self.completeData\<close>:
  \<^verbatim>\<open>[num, name, (c, label), qty, boxes, instructions, parts, weight, mprts, mfigs, notes]\<close>.
\<close>

record 'c row =
  r_num :: string
  r_name :: string
  r_theme :: "'c \<times> string"
  r_qty :: int
  r_bxs :: int
  r_ins :: int
  r_prts :: int
  r_wgh :: weight
  r_mprts :: int
  r_mfigs :: int
  r_nts :: int

subsection \<open>\<^verbatim>\<open>getTheme\<close>\<close>

text \<open>
  \<^verbatim>\<open>
  def getTheme(self, thm):
      thm = str(thm)
      ns = []
      while True:
          if thm in self.mainThemes:
              n, c = self.mainThemes[thm]
              ns.insert(0, n)
              return c, ": ".join(ns)
          else:
              n, thm = self.themes[thm]
              ns.insert(0, n)
  \<close>
  The loop has no bound of its own: on a cycle of parents it never returns.
\<close>

partial_function (option) getTheme_loop ::
  "'c catalog \<Rightarrow> string \<Rightarrow> string list \<Rightarrow> (error + 'c \<times> string) option"
where
  "getTheme_loop cat thm ns =
     (case mainThemes cat thm of
        Some (n, c) \<Rightarrow> Some (Inr (c, join '': '' (n # ns)))
      | None \<Rightarrow>
          (case themes cat thm of
             None \<Rightarrow> Some (Inl KeyError)
           | Some (n, parent) \<Rightarrow> getTheme_loop cat parent (n # ns)))"

definition getTheme :: "'c catalog \<Rightarrow> int \<Rightarrow> (error + 'c \<times> string) option" where
  "getTheme cat thm = getTheme_loop cat (str_int thm) []"

subsection \<open>\<^verbatim>\<open>complete\<close>\<close>

text \<open>\<^verbatim>\<open>thms.setdefault(k, []).append(v)\<close> on a dictionary kept in insertion order.\<close>

fun setdefault_append :: "'k \<Rightarrow> 'v \<Rightarrow> ('k \<times> 'v list) list \<Rightarrow> ('k \<times> 'v list) list" where
  "setdefault_append k v [] = [(k, [v])]"
| "setdefault_append k v ((k', vs) # rest) =
     (if k = k' then (k', vs @ [v]) # rest else (k', vs) # setdefault_append k v rest)"

text \<open>\<^verbatim>\<open>wgh or ""\<close>.\<close>

definition wgh_or_blank :: "int option \<Rightarrow> weight" where
  "wgh_or_blank w = (case w of None \<Rightarrow> Blank | Some g \<Rightarrow> if g = 0 then Blank else Grams g)"

text \<open>The row that the first loop of \<^verbatim>\<open>complete\<close> builds for an entry of the data.\<close>

definition make_row :: "set_entry \<Rightarrow> 'c \<times> string \<Rightarrow> string \<Rightarrow> stat \<Rightarrow> 'c row" where
  "make_row e th num s =
     \<lparr> r_num = num, r_name = set_name e, r_theme = th, r_qty = st_qty s, r_bxs = st_bxs s,
       r_ins = st_ins s, r_prts = set_parts e, r_wgh = wgh_or_blank (st_wgh s),
       r_mprts = sum_list (map (\<lambda>x. snd (snd x)) (st_mprts s)),
       r_mfigs = sum_list (map snd (st_mfigs s)),
       r_nts = int (length (splitlines (st_nts s))) \<rparr>"

text \<open>
  The first loop: \<open>thms\<close> is the dictionary from theme label to the rows of that theme.
  \<^verbatim>\<open>self.sets[num]\<close> raises \<open>KeyError\<close> for a number the catalogue does not have.
\<close>

fun complete_groups ::
  "'c catalog \<Rightarrow> (string \<times> stat) list \<Rightarrow> (string \<times> 'c row list) list
     \<Rightarrow> (error + (string \<times> 'c row list) list) option"
where
  "complete_groups cat [] thms = Some (Inr thms)"
| "complete_groups cat ((num, s) # data) thms =
     (case sets cat num of
        None \<Rightarrow> Some (Inl KeyError)
      | Some e \<Rightarrow>
          (case getTheme cat (set_theme e) of
             None \<Rightarrow> None
           | Some (Inl err) \<Rightarrow> Some (Inl err)
           | Some (Inr th) \<Rightarrow>
               complete_groups cat data (setdefault_append (snd th) (make_row e th num s) thms)))"

text \<open>
  \<^verbatim>\<open>sorted(rows, key=lambda x: readFloat(x[0]))\<close>: the keys of all rows are computed
  first, then the rows are sorted on them by a stable sort.
\<close>

definition sorted_rows :: "'c row list \<Rightarrow> error + 'c row list" where
  "sorted_rows rows =
     bind_err (map_err (\<lambda>r. readFloat (r_num r)) rows)
       (\<lambda>keys. Inr (map snd (sort_key fst (zip keys rows))))"

text \<open>The second loop: \<^verbatim>\<open>data += sorted(rows, ...)\<close> for each group in turn.\<close>

fun concat_sorted :: "(string \<times> 'c row list) list \<Rightarrow> error + 'c row list" where
  "concat_sorted [] = Inr []"
| "concat_sorted ((label, rows) # groups) =
     bind_err (sorted_rows rows)
       (\<lambda>rs. bind_err (concat_sorted groups) (\<lambda>rest. Inr (rs @ rest)))"

text \<open>
  \<^verbatim>\<open>
  def complete(self, data):
      thms = {}
      for num, qty, bx, ins, wgh, mprts, mfigs, nts in data:
          th = self.getTheme(self.sets[num][2])
          thms.setdefault(th[1], []).append([num, self.sets[num][0], th, qty, bx, ins,
              self.sets[num][3], wgh or "", sum(x[2] for x in mprts),
              sum(x[1] for x in mfigs), len(nts.splitlines())])
      data = []
      for _, rows in sorted(thms.items(), key=lambda x: x[0]):
          data += sorted(rows, key=lambda x: readFloat(x[0]))
      return data
  \<close>
\<close>

definition complete :: "'c catalog \<Rightarrow> (string \<times> stat) list \<Rightarrow> (error + 'c row list) option" where
  "complete cat data =
     (case complete_groups cat data [] of
        None \<Rightarrow> None
      | Some (Inl err) \<Rightarrow> Some (Inl err)
      | Some (Inr thms) \<Rightarrow> Some (concat_sorted (sort_key fst thms)))"

subsection \<open>\<^verbatim>\<open>updateStatusBar\<close>\<close>

text \<open>The local variables of the loop of \<^verbatim>\<open>updateStatusBar\<close>.\<close>

record counters =
  c_tbxs :: int
  c_tins :: int
  c_tprts :: int
  c_n :: int
  c_twgh :: int
  c_nwgh :: int
  c_thms :: "string set"
  c_tmprts :: int
  c_tmfigs :: int

definition counters0 :: counters where
  "counters0 =
     \<lparr> c_tbxs = 0, c_tins = 0, c_tprts = 0, c_n = 0, c_twgh = 0, c_nwgh = 0, c_thms = {},
       c_tmprts = 0, c_tmfigs = 0 \<rparr>"

text \<open>
  One pass of the loop body. \<^verbatim>\<open>if wgh:\<close> holds for a weight that is a non-zero integer.
\<close>

definition status_step :: "'c row \<Rightarrow> counters \<Rightarrow> counters" where
  "status_step r a =
     (let a' = a \<lparr> c_tbxs := c_tbxs a + r_bxs r,
                   c_tins := c_tins a + r_ins r,
                   c_tprts := c_tprts a + r_prts r * r_qty r,
                   c_n := c_n a + r_qty r,
                   c_tmprts := c_tmprts a + r_mprts r,
                   c_tmfigs := c_tmfigs a + r_mfigs r,
                   c_thms := insert (snd (r_theme r)) (c_thms a) \<rparr>
      in case r_wgh r of
           Grams g \<Rightarrow>
             (if g \<noteq> 0
              then a' \<lparr> c_twgh := c_twgh a' + g * r_qty r, c_nwgh := c_nwgh a' + r_qty r \<rparr>
              else a')
         | Blank \<Rightarrow> a'
         | PyNone \<Rightarrow> a')"

text \<open>
  The numbers that the labels of the status bar show, in the order of the method:
  \<^verbatim>\<open>Sets: {n} ({len(self.completeData)})\<close>, \<^verbatim>\<open>Parts: {tprts - tmprts}\<close>,
  \<^verbatim>\<open>Weight: {round(twgh / 1000)}kg\<close>, \<^verbatim>\<open>Boxes: {tbxs}\<close>, \<^verbatim>\<open>Instructions: {tins}\<close>,
  \<^verbatim>\<open>Themes: {len(thms)}\<close>, \<^verbatim>\<open>Missing Parts: {tmprts}\<close>, \<^verbatim>\<open>Missing Figs: {tmfigs}\<close>.
\<close>

record totals =
  setsCount :: int
  rowsCount :: int
  partsCount :: int
  weightCount :: int
  boxesCount :: int
  noticesCount :: int
  themesCount :: int
  missingPartsCount :: int
  missingFigsCount :: int

definition updateStatusBar :: "'c row list \<Rightarrow> error + totals" where
  "updateStatusBar completeData =
     (let a = fold status_step completeData counters0
      in bind_err (py_truediv (c_twgh a) 1000)
           (\<lambda>kg. Inr \<lparr> setsCount = c_n a,
                        rowsCount = int (length completeData),
                        partsCount = c_tprts a - c_tmprts a,
                        weightCount = py_round kg,
                        boxesCount = c_tbxs a,
                        noticesCount = c_tins a,
                        themesCount = int (card (c_thms a)),
                        missingPartsCount = c_tmprts a,
                        missingFigsCount = c_tmfigs a \<rparr>))"

subsection \<open>The window state\<close>

text \<open>
  A row of \<^verbatim>\<open>self.setsTable\<close>: the texts of its eleven cells, columns 0 to 10 of
  \<^verbatim>\<open>SETS_TABLE_HEADER\<close>. Every cell of a row holds an item.
\<close>

record trow =
  cell_num :: string
  cell_name :: string
  cell_theme :: string
  cell_qty :: string
  cell_bxs :: string
  cell_ins :: string
  cell_prts :: string
  cell_wgh :: string
  cell_mprts :: string
  cell_mfigs :: string
  cell_nts :: string

text \<open>
  The mutable state of the window: the dictionary \<^verbatim>\<open>self.originalData\<close> in insertion
  order, \<^verbatim>\<open>self.selected\<close> (\<open>None\<close> or a set number, as it is once the constructor has
  run), the rows of the sets table, the rows of the parts table (number, colour name,
  quantity) and of the figs table (number, quantity), and the text of the notes area.
\<close>

record state =
  originalData :: "(string \<times> stat) list"
  selected :: "string option"
  setsTable :: "trow list"
  partsTable :: "(string \<times> string \<times> string) list"
  figsTable :: "(string \<times> string) list"
  notesArea :: string

text \<open>\<^verbatim>\<open>str(value)\<close> for the weight of a row.\<close>

definition str_weight :: "weight \<Rightarrow> string" where
  "str_weight w = (case w of Grams g \<Rightarrow> str_int g | Blank \<Rightarrow> [] | PyNone \<Rightarrow> ''None'')"

text \<open>
  \<^verbatim>\<open>addSetRow\<close> with \<^verbatim>\<open>updateSetItem\<close>: the text of column 2 is \<^verbatim>\<open>value[1]\<close>, the text of
  any other column is \<^verbatim>\<open>str(value)\<close>.
\<close>

definition addSetRow :: "'c row \<Rightarrow> trow" where
  "addSetRow r =
     \<lparr> cell_num = r_num r, cell_name = r_name r, cell_theme = snd (r_theme r),
       cell_qty = str_int (r_qty r), cell_bxs = str_int (r_bxs r), cell_ins = str_int (r_ins r),
       cell_prts = str_int (r_prts r), cell_wgh = str_weight (r_wgh r),
       cell_mprts = str_int (r_mprts r), cell_mfigs = str_int (r_mfigs r),
       cell_nts = str_int (r_nts r) \<rparr>"

subsection \<open>\<^verbatim>\<open>deselectSet\<close> and \<^verbatim>\<open>togglePanel\<close>\<close>

text \<open>
  \<^verbatim>\<open>ColorDialog.get(name=...)["id"]\<close>: the first colour of that name; subscripting the
  \<^verbatim>\<open>None\<close> that \<^verbatim>\<open>get\<close> returns otherwise raises \<open>TypeError\<close>.
\<close>

definition color_id_by_name :: "color list \<Rightarrow> string \<Rightarrow> error + int" where
  "color_id_by_name cs nm =
     (case find (\<lambda>c. color_name c = nm) cs of None \<Rightarrow> Inl TypeError | Some c \<Rightarrow> Inr (color_id c))"

text \<open>One element of the comprehension over the parts table, and one over the figs table.\<close>

definition read_part :: "color list \<Rightarrow> string \<times> string \<times> string \<Rightarrow> error + string \<times> int \<times> int" where
  "read_part cs p =
     (case p of (num, cname, qty) \<Rightarrow>
        bind_err (color_id_by_name cs cname) (\<lambda>cid. bind_err (py_int qty) (\<lambda>q. Inr (num, cid, q))))"

definition read_fig :: "string \<times> string \<Rightarrow> error + string \<times> int" where
  "read_fig f = (case f of (num, qty) \<Rightarrow> bind_err (py_int qty) (\<lambda>q. Inr (num, q)))"

text \<open>
  \<^verbatim>\<open>
  for lasty in range(self.setsTable.rowCount()):
      if self.setsTable.item(lasty, 0).text() == self.selected:
          break
  \<close>
  The variable ends as the index of the first row of that number, or of the last row
  when there is none; it is unbound when the table is empty.
\<close>

fun lasty_loop :: "string \<Rightarrow> trow list \<Rightarrow> nat \<Rightarrow> nat option" where
  "lasty_loop sel [] y = None"
| "lasty_loop sel [r] y = Some y"
| "lasty_loop sel (r # r' # rs) y =
     (if cell_num r = sel then Some y else lasty_loop sel (r' # rs) (Suc y))"

text \<open>
  \<^verbatim>\<open>
  def togglePanel(self):
      if self.selected:
          ...hide the docks...
          self.selected = None
      else:
          ...show the docks...
  \<close>
\<close>

definition togglePanel :: "state \<Rightarrow> state" where
  "togglePanel st =
     (case selected st of
        None \<Rightarrow> st
      | Some s \<Rightarrow> if s \<noteq> [] then st \<lparr> selected := None \<rparr> else st)"

text \<open>The three cells that \<^verbatim>\<open>deselectSet\<close> rewrites with \<^verbatim>\<open>updateSetItem\<close>.\<close>

definition refresh_row :: "stat \<Rightarrow> trow \<Rightarrow> trow" where
  "refresh_row ref r =
     r \<lparr> cell_mprts := str_int (sum_list (map (\<lambda>x. snd (snd x)) (st_mprts ref))),
         cell_mfigs := str_int (sum_list (map snd (st_mfigs ref))),
         cell_nts := str_int (int (length (splitlines (st_nts ref)))) \<rparr>"

text \<open>
  \<^verbatim>\<open>
  def deselectSet(self):
      ref = self.originalData[self.selected]
      tp, tf = self.partsTable.item, self.figsTable.item
      ref[4] = [(tp(row, 0).text(), ColorDialog.get(name=tp(row, 1).text())["id"],
                 int(tp(row, 2).text())) for row in range(self.partsTable.rowCount())]
      self.partsTable.setRowCount(0)
      ref[5] = [(tf(row, 0).text(), int(tf(row, 1).text()))
                for row in range(self.figsTable.rowCount())]
      self.figsTable.setRowCount(0)
      ref[6] = self.notesArea.toPlainText()
      self.notesArea.clear()
      for lasty in range(self.setsTable.rowCount()):
          if self.setsTable.item(lasty, 0).text() == self.selected:
              break
      ...colours of the cells 4 and 5 of row lasty...
      self.updateSetItem(8, sum(x[2] for x in ref[4]), self.setsTable.item(lasty, 8))
      self.updateSetItem(9, sum(x[1] for x in ref[5]), self.setsTable.item(lasty, 9))
      self.updateSetItem(10, len(ref[6].splitlines()), self.setsTable.item(lasty, 10))
      self.togglePanel()
  \<close>
\<close>

definition deselectSet :: "'c catalog \<Rightarrow> state \<Rightarrow> error + state" where
  "deselectSet cat st =
     (case selected st of
        None \<Rightarrow> Inl KeyError
      | Some sel \<Rightarrow>
          (case map_of (originalData st) sel of
             None \<Rightarrow> Inl KeyError
           | Some ref \<Rightarrow>
               bind_err (map_err (read_part (colors cat)) (partsTable st)) (\<lambda>ps.
               bind_err (map_err read_fig (figsTable st)) (\<lambda>fs.
                 let ref' = ref \<lparr> st_mprts := ps, st_mfigs := fs, st_nts := notesArea st \<rparr>
                 in case lasty_loop sel (setsTable st) 0 of
                      None \<Rightarrow> Inl UnboundLocalError
                    | Some lasty \<Rightarrow>
                        Inr (togglePanel
                          (st \<lparr> originalData := AList.update sel ref' (originalData st),
                                partsTable := [],
                                figsTable := [],
                                notesArea := [],
                                setsTable :=
                                  (setsTable st)[lasty := refresh_row ref' (setsTable st ! lasty)]
                              \<rparr>))))))"

text \<open>
  The guarded call \<^verbatim>\<open>if self.selected: self.deselectSet()\<close> with which \<^verbatim>\<open>selectSet\<close> and
  \<^verbatim>\<open>save\<close> begin. The test holds for a non-empty string.
\<close>

definition deselect_if_selected :: "'c catalog \<Rightarrow> state \<Rightarrow> error + state" where
  "deselect_if_selected cat st =
     (case selected st of
        None \<Rightarrow> Inr st
      | Some s \<Rightarrow> if s \<noteq> [] then deselectSet cat st else Inr st)"

subsection \<open>\<^verbatim>\<open>removeSet\<close>\<close>

text \<open>\<^verbatim>\<open>number = line.text(); if "-" not in number: number += "-1"\<close>\<close>

definition set_number :: "string \<Rightarrow> string" where
  "set_number text = (if CHR ''-'' \<in> set text then text else text @ ''-1'')"

text \<open>Removing the first row of a number from the table; \<open>None\<close> when there is none.\<close>

fun remove_row :: "string \<Rightarrow> trow list \<Rightarrow> trow list option" where
  "remove_row num [] = None"
| "remove_row num (r # rs) =
     (if cell_num r = num then Some rs else map_option ((#) r) (remove_row num rs))"

text \<open>
  \<^verbatim>\<open>
  def removeSet(self, line):
      self.deselectSet()
      number = line.text()
      if "-" not in number: number += "-1"
      line.clear()
      for row in range(self.setsTable.rowCount()):
          if self.setsTable.item(row, 0).text() == number:
              self.setsTable.removeRow(row)
              self.originalData.pop(number)
              return
      self.numberGetError(line, number)
  \<close>
  \<open>text\<close> is the content of the line edit. The result holds the new state and, when no
  row has the number, the number that \<^verbatim>\<open>numberGetError\<close> reports.
\<close>

definition removeSet :: "'c catalog \<Rightarrow> state \<Rightarrow> string \<Rightarrow> error + state \<times> string option" where
  "removeSet cat st text =
     bind_err (deselectSet cat st) (\<lambda>st1.
       let number = set_number text
       in case remove_row number (setsTable st1) of
            None \<Rightarrow> Inr (st1, Some number)
          | Some rows \<Rightarrow>
              (case map_of (originalData st1) number of
                 None \<Rightarrow> Inl KeyError
               | Some _ \<Rightarrow>
                   Inr (st1 \<lparr> setsTable := rows,
                              originalData := AList.delete number (originalData st1) \<rparr>,
                        None)))"

subsection \<open>\<^verbatim>\<open>getSet\<close> and \<^verbatim>\<open>addSet\<close>\<close>

text \<open>The record that \<^verbatim>\<open>getSet\<close> stores: \<^verbatim>\<open>[1, 0, 0, wgh, [], [], ""]\<close>.\<close>

definition new_stat :: "int option \<Rightarrow> stat" where
  "new_stat wgh =
     \<lparr> st_qty = 1, st_bxs = 0, st_ins = 0, st_wgh = wgh, st_mprts = [], st_mfigs = [],
       st_nts = [] \<rparr>"

text \<open>
  \<^verbatim>\<open>
  def getSet(self, line):
      number = line.text()
      if "-" not in number: number += "-1"
      try:
          name, _, thm, prts = self.sets[number]
      except KeyError:
          return self.numberGetError(line, number)
      wgh = None
      try:
          ...the request to WEIGHT_API and the reading of its answer, which set wgh...
      except ConnectionError:
          pass
      self.originalData[number] = [1, 0, 0, wgh, [], [], ""]
      return [number, name, self.getTheme(thm), 1, 0, 0, prts, wgh, 0, 0, 0]
  \<close>
  The outcome of the weight lookup is an input of the model: \<open>fetched\<close> is the exception
  that leaves the \<^verbatim>\<open>try\<close> block, or the value of \<^verbatim>\<open>wgh\<close> after it.
\<close>

definition getSet ::
  "'c catalog \<Rightarrow> state \<Rightarrow> string \<Rightarrow> error + int option
     \<Rightarrow> (error + state \<times> 'c row option) option"
where
  "getSet cat st text fetched =
     (let number = set_number text
      in case sets cat number of
           None \<Rightarrow> Some (Inr (st, None))
         | Some e \<Rightarrow>
             (case fetched of
                Inl err \<Rightarrow> Some (Inl err)
              | Inr wgh \<Rightarrow>
                  (let st' = st \<lparr> originalData :=
                                    AList.update number (new_stat wgh) (originalData st) \<rparr>
                   in case getTheme cat (set_theme e) of
                        None \<Rightarrow> None
                      | Some (Inl err) \<Rightarrow> Some (Inl err)
                      | Some (Inr th) \<Rightarrow>
                          Some (Inr (st',
                            Some \<lparr> r_num = number, r_name = set_name e, r_theme = th,
                                   r_qty = 1, r_bxs = 0, r_ins = 0, r_prts = set_parts e,
                                   r_wgh = (case wgh of None \<Rightarrow> PyNone | Some g \<Rightarrow> Grams g),
                                   r_mprts = 0, r_mfigs = 0, r_nts = 0 \<rparr>)))))"

text \<open>
  \<^verbatim>\<open>
  def addSet(self, line):
      row = self.getSet(line)
      line.clear()
      if row is None:
          return
      rowPosition = self.setsTable.rowCount()
      self.setsTable.insertRow(rowPosition)
      self.addSetRow(rowPosition, row)
  \<close>
\<close>

definition addSet ::
  "'c catalog \<Rightarrow> state \<Rightarrow> string \<Rightarrow> error + int option \<Rightarrow> (error + state) option"
where
  "addSet cat st text fetched =
     (case getSet cat st text fetched of
        None \<Rightarrow> None
      | Some (Inl err) \<Rightarrow> Some (Inl err)
      | Some (Inr (st', None)) \<Rightarrow> Some (Inr st')
      | Some (Inr (st', Some r)) \<Rightarrow>
          Some (Inr (st' \<lparr> setsTable := setsTable st' @ [addSetRow r] \<rparr>)))"

subsection \<open>\<^verbatim>\<open>save\<close>\<close>

text \<open>\<^verbatim>\<open>int(text or 0) or None\<close>.\<close>

definition weight_of_text :: "string \<Rightarrow> error + int option" where
  "weight_of_text text =
     bind_err (if text = [] then Inr 0 else py_int text)
       (\<lambda>v. Inr (if v = 0 then None else Some v))"

text \<open>One pass of the loop of \<^verbatim>\<open>save\<close> over the rows of the sets table.\<close>

definition save_row :: "trow \<Rightarrow> (string \<times> stat) list \<Rightarrow> error + (string \<times> stat) list" where
  "save_row r od =
     (case map_of od (cell_num r) of
        None \<Rightarrow> Inl KeyError
      | Some ref \<Rightarrow>
          bind_err (py_int (cell_qty r)) (\<lambda>q.
          bind_err (py_int (cell_bxs r)) (\<lambda>b.
          bind_err (py_int (cell_ins r)) (\<lambda>i.
          bind_err (weight_of_text (cell_wgh r)) (\<lambda>w.
            Inr (AList.update (cell_num r)
                   (ref \<lparr> st_qty := q, st_bxs := b, st_ins := i, st_wgh := w \<rparr>) od))))))"

fun save_rows :: "trow list \<Rightarrow> (string \<times> stat) list \<Rightarrow> error + (string \<times> stat) list" where
  "save_rows [] od = Inr od"
| "save_rows (r # rs) od = bind_err (save_row r od) (save_rows rs)"

text \<open>
  \<^verbatim>\<open>
  def save(self):
      if self.selected:
          self.deselectSet()
      item = self.setsTable.item
      for y in range(self.setsTable.rowCount()):
          ref = self.originalData[item(y, 0).text()]
          ref[0] = int(item(y, 3).text())
          ref[1] = int(item(y, 4).text())
          ref[2] = int(item(y, 5).text())
          ref[3] = int(item(y, 7).text() or 0) or None
      with open("LegoStats/ressources/stats.json", "w") as f:
          json.dump([[k, *v] for k, v in self.originalData.items()], f)
  \<close>
  The result holds the new state and the list that is written to the file.
\<close>

definition save :: "'c catalog \<Rightarrow> state \<Rightarrow> error + state \<times> (string \<times> stat) list" where
  "save cat st =
     bind_err (deselect_if_selected cat st)
       (\<lambda>st1. bind_err (save_rows (setsTable st1) (originalData st1))
          (\<lambda>od. Inr (st1 \<lparr> originalData := od \<rparr>, od)))"

subsection \<open>The constructor\<close>

text \<open>\<^verbatim>\<open>{r[0]: r[1:] for r in self.originalData}\<close>\<close>

definition dict_of :: "(string \<times> stat) list \<Rightarrow> (string \<times> stat) list" where
  "dict_of data = fold (\<lambda>kv od. AList.update (fst kv) (snd kv) od) data []"

text \<open>
  The part of \<^verbatim>\<open>__init__\<close> that builds the state from the loaded \<^verbatim>\<open>stats.json\<close>:
  \<^verbatim>\<open>complete\<close>, the dictionary, \<^verbatim>\<open>loadSets\<close> (one table row per row of
  \<^verbatim>\<open>self.completeData\<close>), \<^verbatim>\<open>updateStatusBar\<close> and the final \<^verbatim>\<open>togglePanel\<close>, which turns
  the initial \<^verbatim>\<open>self.selected = True\<close> into \<^verbatim>\<open>None\<close>.
\<close>

definition init ::
  "'c catalog \<Rightarrow> (string \<times> stat) list \<Rightarrow> (error + state \<times> 'c row list \<times> totals) option"
where
  "init cat data =
     (case complete cat data of
        None \<Rightarrow> None
      | Some (Inl err) \<Rightarrow> Some (Inl err)
      | Some (Inr completeData) \<Rightarrow>
          Some (bind_err (updateStatusBar completeData) (\<lambda>tot.
            Inr (\<lparr> originalData = dict_of data, selected = None,
                   setsTable = map addSetRow completeData,
                   partsTable = [], figsTable = [], notesArea = [] \<rparr>,
                 completeData, tot))))"

subsection \<open>Notions used to state the properties\<close>

text \<open>
  \<open>theme_chain cat thm ns rt\<close>: following the parents from the theme \<open>thm\<close> reaches, after
  finitely many steps, the theme \<open>rt\<close> of \<^verbatim>\<open>mainThemes\<close>; \<open>ns\<close> are the names met on the
  way, the one of \<open>rt\<close> first and the one of \<open>thm\<close> last.
\<close>

inductive theme_chain :: "'c catalog \<Rightarrow> string \<Rightarrow> string list \<Rightarrow> string \<Rightarrow> bool" where
  chain_root: "mainThemes cat thm = Some (n, c) \<Longrightarrow> theme_chain cat thm [n] thm"
| chain_step: "mainThemes cat thm = None \<Longrightarrow> themes cat thm = Some (n, parent)
     \<Longrightarrow> theme_chain cat parent ns rt \<Longrightarrow> theme_chain cat thm (ns @ [n]) rt"

text \<open>The name that the catalogue gives to a theme id.\<close>

definition theme_name :: "'c catalog \<Rightarrow> string \<Rightarrow> string option" where
  "theme_name cat thm =
     (case mainThemes cat thm of
        Some (n, c) \<Rightarrow> Some n
      | None \<Rightarrow> map_option fst (themes cat thm))"

text \<open>
  The weight that a row adds to \<^verbatim>\<open>twgh\<close> (its weight times its quantity, nothing for a
  row without weight) and the quantity that it adds to \<^verbatim>\<open>nwgh\<close>.
\<close>

definition row_weight :: "'c row \<Rightarrow> int" where
  "row_weight r = (case r_wgh r of Grams g \<Rightarrow> g * r_qty r | Blank \<Rightarrow> 0 | PyNone \<Rightarrow> 0)"

definition row_weighed :: "'c row \<Rightarrow> int" where
  "row_weighed r =
     (case r_wgh r of Grams g \<Rightarrow> if g \<noteq> 0 then r_qty r else 0 | Blank \<Rightarrow> 0 | PyNone \<Rightarrow> 0)"

text \<open>
  A row is resolved when the catalogue has its set and its theme is what \<^verbatim>\<open>getTheme\<close>
  returns for the theme of that set.
\<close>

definition resolved :: "'c catalog \<Rightarrow> 'c row \<Rightarrow> bool" where
  "resolved cat r =
     (case sets cat (r_num r) of
        None \<Rightarrow> False
      | Some e \<Rightarrow> getTheme cat (set_theme e) = Some (Inr (r_theme r)))"

text \<open>
  The invariant of the dictionary \<^verbatim>\<open>thms\<close> in \<^verbatim>\<open>complete\<close>: its keys are distinct, and the
  rows under a key are resolved rows of that label.
\<close>

definition group_inv :: "'c catalog \<Rightarrow> (string \<times> 'c row list) list \<Rightarrow> bool" where
  "group_inv cat thms =
     (distinct (map fst thms) \<and>
      (\<forall>k rows r. (k, rows) \<in> set thms \<longrightarrow> r \<in> set rows \<longrightarrow>
         snd (r_theme r) = k \<and> resolved cat r))"

text \<open>
  The order on set numbers in the words of the specification: the digits before the
  separator and the digits after it are read as two integers, which are compared in
  sequence.
\<close>

definition digits_value :: "string \<Rightarrow> int option" where
  "digits_value s =
     (if s \<noteq> [] \<and> list_all is_digit s then Some (fst (read_digits 0 s)) else None)"

definition spec_number_key :: "string \<Rightarrow> (int \<times> int) option" where
  "spec_number_key num =
     (let base = takeWhile (\<lambda>c. c \<noteq> CHR ''-'') num;
          variant = drop (Suc (length base)) num
      in case (digits_value base, digits_value variant) of
           (Some b, Some v) \<Rightarrow> Some (b, v)
         | _ \<Rightarrow> None)"

definition spec_number_less :: "string \<Rightarrow> string \<Rightarrow> bool" where
  "spec_number_less a b =
     (case (spec_number_key a, spec_number_key b) of
        (Some (a1, a2), Some (b1, b2)) \<Rightarrow> a1 < b1 \<or> (a1 = b1 \<and> a2 < b2)
      | _ \<Rightarrow> False)"

subsection \<open>Example data\<close>

text \<open>A catalogue with one set, whose theme has one parent, and one colour.\<close>

definition ex_cat :: "int catalog" where
  "ex_cat =
     \<lparr> sets = [''7140-1'' \<mapsto>
                \<lparr> set_name = ''X-wing'', set_year = 1999, set_theme = 18, set_parts = 100 \<rparr>],
       themes = [''18'' \<mapsto> (''Episode I'', ''158'')],
       mainThemes = [''158'' \<mapsto> (''Star Wars'', 7)],
       colors = [\<lparr> color_id = 5, color_name = ''Red'', color_rgb = [201, 26, 9],
                  color_group = 0 \<rparr>] \<rparr>"

text \<open>
  The record of the scenario: quantity 1 and one missing part \<^verbatim>\<open>("3001", 5, 2)\<close>.
\<close>

definition ex_stat :: stat where
  "ex_stat =
     \<lparr> st_qty = 1, st_bxs = 0, st_ins = 0, st_wgh = None,
       st_mprts = [(''3001'', 5, 2)], st_mfigs = [], st_nts = [] \<rparr>"

text \<open>
  A catalogue with two root themes whose names and second components are ordered in
  opposite ways, and three sets.
\<close>

definition ex_set :: "string \<Rightarrow> int \<Rightarrow> set_entry" where
  "ex_set nm th = \<lparr> set_name = nm, set_year = 2000, set_theme = th, set_parts = 10 \<rparr>"

definition ex_cat2 :: "int catalog" where
  "ex_cat2 =
     \<lparr> sets = [''1-9'' \<mapsto> ex_set ''A'' 1, ''1-10'' \<mapsto> ex_set ''B'' 1,
               ''20-1'' \<mapsto> ex_set ''C'' 2],
       themes = Map.empty,
       mainThemes = [''1'' \<mapsto> (''Alpha'', 2), ''2'' \<mapsto> (''Beta'', 1)],
       colors = [] \<rparr>"

text \<open>The rows that \<^verbatim>\<open>complete\<close> returns on two collections over that catalogue.\<close>

definition ex2_out_themes :: "int row list" where
  "ex2_out_themes =
     [make_row (ex_set ''A'' 1) (2, ''Alpha'') ''1-9'' (new_stat None),
      make_row (ex_set ''C'' 2) (1, ''Beta'') ''20-1'' (new_stat None)]"

definition ex2_out_numbers :: "int row list" where
  "ex2_out_numbers =
     [make_row (ex_set ''B'' 1) (2, ''Alpha'') ''1-10'' (new_stat None),
      make_row (ex_set ''A'' 1) (2, ''Alpha'') ''1-9'' (new_stat None)]"

text \<open>
  A window state in which the set of \<open>ex_cat\<close> is selected and the detail panel holds one
  missing part, one missing fig and a note; and the state after \<^verbatim>\<open>deselectSet\<close>.
\<close>

definition ex_trow :: trow where
  "ex_trow =
     \<lparr> cell_num = ''7140-1'', cell_name = ''X-wing'', cell_theme = ''Star Wars: Episode I'',
       cell_qty = ''1'', cell_bxs = ''0'', cell_ins = ''0'', cell_prts = ''100'', cell_wgh = [],
       cell_mprts = ''0'', cell_mfigs = ''0'', cell_nts = ''0'' \<rparr>"

definition ex_st :: state where
  "ex_st =
     \<lparr> originalData = [(''7140-1'', new_stat None)], selected = Some ''7140-1'',
       setsTable = [ex_trow], partsTable = [(''3001'', ''Red'', ''2'')],
       figsTable = [(''sw0001'', ''1'')], notesArea = ''box damaged'' \<rparr>"

definition ex_st1 :: state where
  "ex_st1 =
     \<lparr> originalData =
         [(''7140-1'', (new_stat None) \<lparr> st_mprts := [(''3001'', 5, 2)],
             st_mfigs := [(''sw0001'', 1)], st_nts := ''box damaged'' \<rparr>)],
       selected = None,
       setsTable = [ex_trow \<lparr> cell_mprts := ''2'', cell_mfigs := ''1'', cell_nts := ''1'' \<rparr>],
       partsTable = [], figsTable = [], notesArea = [] \<rparr>"

text \<open>
  The same state with a quantity in the parts table that is not a number, and the state
  with no set at all.
\<close>

definition ex_st_bad :: state where
  "ex_st_bad = ex_st \<lparr> partsTable := [(''3001'', ''Red'', ''two'')] \<rparr>"

definition ex_st2 :: state where
  "ex_st2 =
     \<lparr> originalData = [], selected = None, setsTable = [], partsTable = [], figsTable = [],
       notesArea = [] \<rparr>"


text \<open>
  The state that the constructor builds from a \<^verbatim>\<open>stats.json\<close> whose only record has the
  weight 0.
\<close>

definition ex_st0 :: state where
  "ex_st0 =
     \<lparr> originalData = [(''7140-1'', new_stat (Some 0))], selected = None,
       setsTable = [ex_trow], partsTable = [], figsTable = [], notesArea = [] \<rparr>"

text \<open>
  What the constructor establishes and every operation keeps: the keys of
  \<^verbatim>\<open>originalData\<close>, a dictionary, are distinct, and each of them is the number of a row of
  the sets table.
\<close>

definition store_inv :: "state \<Rightarrow> bool" where
  "store_inv st \<longleftrightarrow>
     distinct (map fst (originalData st)) \<and>
     fst ` set (originalData st) \<subseteq> cell_num ` set (setsTable st)"

section \<open>Properties\<close>

subsection \<open>Evaluations of the built-ins\<close>

lemma str_int_18: "str_int 18 = ''18''"
  by code_simp

lemma readFloat_7140_1:
  "readFloat ''7140-1'' = Inr (Finite (3925311486741709 / 549755813888))"
  by code_simp

lemma str_int_1: "str_int 1 = ''1''" by code_simp
lemma str_int_2: "str_int 2 = ''2''" by code_simp

lemma readFloat_1_9: "readFloat ''1-9'' = Inr (Finite (4278419646001971 / 2251799813685248))"
  by code_simp
lemma readFloat_1_10: "readFloat ''1-10'' = Inr (Finite (2476979795053773 / 2251799813685248))"
  by code_simp
lemma readFloat_20_1: "readFloat ''20-1'' = Inr (Finite (2828823515942093 / 140737488355328))"
  by code_simp
lemma readFloat_9_1: "readFloat ''9-1'' = Inr (Finite (5122844576133939 / 562949953421312))"
  by code_simp
lemma readFloat_10_1: "readFloat ''10-1'' = Inr (Finite (5685794529555251 / 562949953421312))"
  by code_simp
lemma readFloat_70_1: "readFloat ''70-1'' = Inr (Finite (2466424483427123 / 35184372088832))"
  by code_simp
lemma readFloat_100_1: "readFloat ''100-1'' = Inr (Finite (3521955646092083 / 35184372088832))"
  by code_simp

lemma py_int_1: "py_int ''1'' = Inr 1" by code_simp
lemma py_int_2: "py_int ''2'' = Inr 2" by code_simp
lemma py_int_two: "py_int ''two'' = Inl ValueError" by code_simp
lemma splitlines_ex: "splitlines ''box damaged'' = [''box damaged'']" by code_simp

lemma py_truediv_0: "py_truediv 0 1000 = Inr 0"
  by (simp add: py_truediv_def double_of_rat_def)

lemma py_round_0: "py_round 0 = 0"
  by (simp add: py_round_def round_half_even_def)

subsection \<open>Evaluations on the example data\<close>

lemma ex_theme: "getTheme ex_cat 18 = Some (Inr (7, ''Star Wars: Episode I''))"
  by (simp add: getTheme_def str_int_18 getTheme_loop.simps ex_cat_def)

lemma ex_sets:
  "sets ex_cat ''7140-1'' =
     Some \<lparr> set_name = ''X-wing'', set_year = 1999, set_theme = 18, set_parts = 100 \<rparr>"
  by (simp add: ex_cat_def)

lemma ex_complete:
  "complete ex_cat [(''7140-1'', ex_stat)] =
     Some (Inr [\<lparr> r_num = ''7140-1'', r_name = ''X-wing'',
                  r_theme = (7, ''Star Wars: Episode I''), r_qty = 1, r_bxs = 0, r_ins = 0,
                  r_prts = 100, r_wgh = Blank, r_mprts = 2, r_mfigs = 0, r_nts = 0 \<rparr>])"
  by (simp add: complete_def ex_sets ex_theme make_row_def ex_stat_def wgh_or_blank_def
      splitlines_def sorted_rows_def bind_err_def readFloat_7140_1)

lemma ex2_theme_1: "getTheme ex_cat2 1 = Some (Inr (2, ''Alpha''))"
  by (simp add: getTheme_def str_int_1 getTheme_loop.simps ex_cat2_def)

lemma ex2_theme_2: "getTheme ex_cat2 2 = Some (Inr (1, ''Beta''))"
  by (simp add: getTheme_def str_int_2 getTheme_loop.simps ex_cat2_def)

lemma ex2_sets:
  "sets ex_cat2 ''1-9'' = Some (ex_set ''A'' 1)"
  "sets ex_cat2 ''1-10'' = Some (ex_set ''B'' 1)"
  "sets ex_cat2 ''20-1'' = Some (ex_set ''C'' 2)"
  by (simp_all add: ex_cat2_def)

lemma ex_set_theme: "set_theme (ex_set nm th) = th"
  by (simp add: ex_set_def)

lemma make_row_sel:
  "r_num (make_row e th num s) = num" "r_theme (make_row e th num s) = th"
  by (simp_all add: make_row_def)

lemma ex2_complete_themes:
  "complete ex_cat2 [(''20-1'', new_stat None), (''1-9'', new_stat None)] =
     Some (Inr ex2_out_themes)"
  by (simp add: ex2_out_themes_def complete_def ex2_sets ex_set_theme ex2_theme_1 ex2_theme_2 sorted_rows_def
      bind_err_def make_row_sel readFloat_1_9 readFloat_20_1)

lemma ex2_complete_numbers:
  "complete ex_cat2 [(''1-9'', new_stat None), (''1-10'', new_stat None)] =
     Some (Inr ex2_out_numbers)"
  by (simp add: ex2_out_numbers_def complete_def ex2_sets ex_set_theme ex2_theme_1 ex2_theme_2 sorted_rows_def
      bind_err_def make_row_sel readFloat_1_9 readFloat_1_10)

subsection \<open>\<^verbatim>\<open>getTheme\<close> on a finite chain of parents\<close>

lemma join_snoc: "join sep (ns @ [n]) = (if ns = [] then n else join sep ns @ sep @ n)"
  by (induction sep ns rule: join.induct) auto

lemma getTheme_loop_chain:
  "theme_chain cat thm ns rt \<Longrightarrow>
   \<exists>rn c. mainThemes cat rt = Some (rn, c) \<and>
     getTheme_loop cat thm acc = Some (Inr (c, join '': '' (ns @ acc)))"
proof (induction arbitrary: acc rule: theme_chain.induct)
  case (chain_root cat t n c)
  then show ?case by (subst getTheme_loop.simps) simp
next
  case (chain_step cat t n parent ns rt)
  from chain_step.IH [of "n # acc"] obtain rn c where
    r: "mainThemes cat rt = Some (rn, c)" and
    g: "getTheme_loop cat parent (n # acc) = Some (Inr (c, join '': '' (ns @ n # acc)))"
    by blast
  have "getTheme_loop cat t acc = getTheme_loop cat parent (n # acc)"
    using chain_step.hyps(1,2) by (subst getTheme_loop.simps) simp
  with r g show ?case by simp
qed

lemma theme_chain_last:
  "theme_chain cat thm ns rt \<Longrightarrow> ns \<noteq> [] \<and> theme_name cat thm = Some (last ns)"
  by (induction rule: theme_chain.induct) (simp_all add: theme_name_def)

lemma theme_chain_hd:
  "theme_chain cat thm ns rt \<Longrightarrow> ns \<noteq> [] \<and> (\<exists>c. mainThemes cat rt = Some (hd ns, c))"
  by (induction rule: theme_chain.induct) (auto simp: hd_append)

text \<open>
  Claim C9. When the chain of parents of a theme id reaches a theme of \<^verbatim>\<open>mainThemes\<close>
  after finitely many steps, \<^verbatim>\<open>getTheme\<close> returns: its result is the second component
  (the sort key of the specification) of that root theme, together with the names from
  the root to the leaf joined with \<^verbatim>\<open>": "\<close>; the label therefore ends in the name of the
  theme id itself, which is the whole label when the id is a root and is preceded by
  \<^verbatim>\<open>": "\<close> otherwise.
\<close>

theorem C9_getTheme_returns:
  assumes "theme_chain cat (str_int thm) ns rt"
  shows "\<exists>c. mainThemes cat rt = Some (hd ns, c) \<and>
           getTheme cat thm = Some (Inr (c, join '': '' ns)) \<and>
           theme_name cat (str_int thm) = Some (last ns) \<and>
           join '': '' ns =
             (if butlast ns = [] then last ns else join '': '' (butlast ns) @ '': '' @ last ns)"
proof -
  from getTheme_loop_chain [OF assms, of "[]"] obtain rn c where
    r: "mainThemes cat rt = Some (rn, c)" and
    g: "getTheme cat thm = Some (Inr (c, join '': '' ns))"
    by (auto simp: getTheme_def)
  from theme_chain_hd [OF assms] r have h: "rn = hd ns" by auto
  from theme_chain_last [OF assms] have ne: "ns \<noteq> []"
    and l: "theme_name cat (str_int thm) = Some (last ns)"
    by auto
  have "join '': '' (butlast ns @ [last ns]) =
      (if butlast ns = [] then last ns else join '': '' (butlast ns) @ '': '' @ last ns)"
    by (rule join_snoc)
  with ne have j: "join '': '' ns =
      (if butlast ns = [] then last ns else join '': '' (butlast ns) @ '': '' @ last ns)"
    by simp
  from r g h l j show ?thesis by simp
qed

lemma ex_chain: "theme_chain ex_cat ''18'' ([''Star Wars''] @ [''Episode I'']) ''158''"
  by (rule chain_step [where parent = "''158''"])
    (simp_all add: ex_cat_def chain_root [where c = 7])

theorem C9_getTheme_returns_witness:
  "theme_chain ex_cat (str_int 18) [''Star Wars'', ''Episode I''] ''158'' \<and>
   getTheme ex_cat 18 = Some (Inr (7, ''Star Wars: Episode I''))"
proof -
  have c: "theme_chain ex_cat (str_int 18) [''Star Wars'', ''Episode I''] ''158''"
    using ex_chain by (simp add: str_int_18)
  from C9_getTheme_returns [OF c] show ?thesis
    using c by (simp add: ex_cat_def)
qed

subsection \<open>\<^verbatim>\<open>deselectSet\<close> without a selection\<close>

text \<open>
  Claim C8. The claim says that deselecting when nothing is selected does nothing and
  does not fail. \<^verbatim>\<open>selectSet\<close> and \<^verbatim>\<open>save\<close> call \<^verbatim>\<open>deselectSet\<close> under
  \<^verbatim>\<open>if self.selected\<close>; \<^verbatim>\<open>removeSet\<close> calls it without the test. With no selection
  \<^verbatim>\<open>self.originalData[self.selected]\<close> raises \<open>KeyError\<close>, so \<^verbatim>\<open>deselectSet\<close> fails, and
  \<^verbatim>\<open>removeSet\<close> fails with it, whatever is to be removed.
\<close>

theorem C8_deselect_without_selection:
  "deselectSet cat (st \<lparr> selected := None \<rparr>) = Inl KeyError \<and>
   removeSet cat (st \<lparr> selected := None \<rparr>) text = Inl KeyError"
  by (simp add: deselectSet_def removeSet_def bind_err_def)

subsection \<open>The totals of the status bar\<close>

lemma status_step_fields:
  "c_tbxs (status_step r a) = c_tbxs a + r_bxs r"
  "c_tins (status_step r a) = c_tins a + r_ins r"
  "c_tprts (status_step r a) = c_tprts a + r_prts r * r_qty r"
  "c_n (status_step r a) = c_n a + r_qty r"
  "c_twgh (status_step r a) = c_twgh a + row_weight r"
  "c_nwgh (status_step r a) = c_nwgh a + row_weighed r"
  "c_thms (status_step r a) = insert (snd (r_theme r)) (c_thms a)"
  "c_tmprts (status_step r a) = c_tmprts a + r_mprts r"
  "c_tmfigs (status_step r a) = c_tmfigs a + r_mfigs r"
  by (simp_all add: status_step_def Let_def row_weight_def row_weighed_def split: weight.splits)

lemma fold_status_step:
  "fold status_step rows a =
     \<lparr> c_tbxs = c_tbxs a + sum_list (map r_bxs rows),
       c_tins = c_tins a + sum_list (map r_ins rows),
       c_tprts = c_tprts a + (\<Sum>r\<leftarrow>rows. r_prts r * r_qty r),
       c_n = c_n a + sum_list (map r_qty rows),
       c_twgh = c_twgh a + sum_list (map row_weight rows),
       c_nwgh = c_nwgh a + sum_list (map row_weighed rows),
       c_thms = c_thms a \<union> set (map (\<lambda>r. snd (r_theme r)) rows),
       c_tmprts = c_tmprts a + sum_list (map r_mprts rows),
       c_tmfigs = c_tmfigs a + sum_list (map r_mfigs rows) \<rparr>"
proof (induction rows arbitrary: a)
  case Nil
  show ?case by simp
next
  case (Cons r rows)
  show ?case
    by (simp add: Cons.IH status_step_fields)
qed

lemma updateStatusBar_sums:
  "updateStatusBar rows =
     bind_err (py_truediv (\<Sum>r\<leftarrow>rows. row_weight r) 1000)
       (\<lambda>kg. Inr \<lparr> setsCount = (\<Sum>r\<leftarrow>rows. r_qty r),
                    rowsCount = int (length rows),
                    partsCount = (\<Sum>r\<leftarrow>rows. r_prts r * r_qty r) - (\<Sum>r\<leftarrow>rows. r_mprts r),
                    weightCount = py_round kg,
                    boxesCount = (\<Sum>r\<leftarrow>rows. r_bxs r),
                    noticesCount = (\<Sum>r\<leftarrow>rows. r_ins r),
                    themesCount = int (card (set (map (\<lambda>r. snd (r_theme r)) rows))),
                    missingPartsCount = (\<Sum>r\<leftarrow>rows. r_mprts r),
                    missingFigsCount = (\<Sum>r\<leftarrow>rows. r_mfigs r) \<rparr>)"
  by (simp add: updateStatusBar_def fold_status_step counters0_def Let_def)

text \<open>
  Claim C7. For every sequence of rows, \<^verbatim>\<open>updateStatusBar\<close> computes: the number of sets as
  the sum of the quantities; the parts as the sum of parts times quantity minus the sum
  of the missing parts; the weight as \<^verbatim>\<open>round(twgh / 1000)\<close>, where \<^verbatim>\<open>twgh\<close> is the sum of
  weight times quantity over the rows that have a weight (the only failure of the method
  is the \<open>OverflowError\<close> of that division); the number of themes as the number of distinct
  theme labels. On the scenario (one record of quantity 1 with one missing part of
  quantity 2, a catalogue entry of 100 parts) the method succeeds and the parts are 98.
\<close>

theorem C7_updateStatusBar_totals:
  "updateStatusBar rows =
     bind_err (py_truediv (\<Sum>r\<leftarrow>rows. row_weight r) 1000)
       (\<lambda>kg. Inr \<lparr> setsCount = (\<Sum>r\<leftarrow>rows. r_qty r),
                    rowsCount = int (length rows),
                    partsCount = (\<Sum>r\<leftarrow>rows. r_prts r * r_qty r) - (\<Sum>r\<leftarrow>rows. r_mprts r),
                    weightCount = py_round kg,
                    boxesCount = (\<Sum>r\<leftarrow>rows. r_bxs r),
                    noticesCount = (\<Sum>r\<leftarrow>rows. r_ins r),
                    themesCount = int (card (set (map (\<lambda>r. snd (r_theme r)) rows))),
                    missingPartsCount = (\<Sum>r\<leftarrow>rows. r_mprts r),
                    missingFigsCount = (\<Sum>r\<leftarrow>rows. r_mfigs r) \<rparr>) \<and>
   (\<exists>ex_rows tot. complete ex_cat [(''7140-1'', ex_stat)] = Some (Inr ex_rows) \<and>
      updateStatusBar ex_rows = Inr tot \<and> partsCount tot = 98 \<and> setsCount tot = 1 \<and>
      weightCount tot = 0 \<and> themesCount tot = 1)"
proof
  show "updateStatusBar rows =
     bind_err (py_truediv (\<Sum>r\<leftarrow>rows. row_weight r) 1000)
       (\<lambda>kg. Inr \<lparr> setsCount = (\<Sum>r\<leftarrow>rows. r_qty r),
                    rowsCount = int (length rows),
                    partsCount = (\<Sum>r\<leftarrow>rows. r_prts r * r_qty r) - (\<Sum>r\<leftarrow>rows. r_mprts r),
                    weightCount = py_round kg,
                    boxesCount = (\<Sum>r\<leftarrow>rows. r_bxs r),
                    noticesCount = (\<Sum>r\<leftarrow>rows. r_ins r),
                    themesCount = int (card (set (map (\<lambda>r. snd (r_theme r)) rows))),
                    missingPartsCount = (\<Sum>r\<leftarrow>rows. r_mprts r),
                    missingFigsCount = (\<Sum>r\<leftarrow>rows. r_mfigs r) \<rparr>)"
    by (rule updateStatusBar_sums)
  show "\<exists>ex_rows tot. complete ex_cat [(''7140-1'', ex_stat)] = Some (Inr ex_rows) \<and>
      updateStatusBar ex_rows = Inr tot \<and> partsCount tot = 98 \<and> setsCount tot = 1 \<and>
      weightCount tot = 0 \<and> themesCount tot = 1"
    by (simp add: ex_complete updateStatusBar_sums row_weight_def py_truediv_0 py_round_0
        bind_err_def)
qed

subsection \<open>The order of the rows that \<^verbatim>\<open>complete\<close> returns\<close>

lemma map_err_Inr: "map_err f xs = Inr ys \<Longrightarrow> map f xs = map Inr ys"
  by (induction xs arbitrary: ys) (auto split: sum.splits)

lemma sorted_rows_Inr:
  assumes "sorted_rows rows = Inr rs"
  shows "\<exists>ks. map (\<lambda>r. readFloat (r_num r)) rs = map Inr ks \<and> sorted ks"
    and "mset rs = mset rows"
proof -
  from assms obtain keys where
    k: "map_err (\<lambda>r. readFloat (r_num r)) rows = Inr keys" and
    rs: "rs = map snd (sort_key fst (zip keys rows))"
    by (auto simp: sorted_rows_def bind_err_def split: sum.splits)
  from map_err_Inr [OF k] have m: "map (\<lambda>r. readFloat (r_num r)) rows = map Inr keys" .
  then have len: "length keys = length rows"
    by (metis length_map)
  have el: "readFloat (r_num r) = Inr k" if "(k, r) \<in> set (zip keys rows)" for k r
  proof -
    from that obtain i where i: "i < length rows" "keys ! i = k" "rows ! i = r"
      by (auto simp: in_set_zip)
    from m i(1) len have "map (\<lambda>r. readFloat (r_num r)) rows ! i = map Inr keys ! i"
      by simp
    with i len show ?thesis by simp
  qed
  let ?ss = "sort_key fst (zip keys rows)"
  have "map (\<lambda>r. readFloat (r_num r)) rs = map (\<lambda>p. readFloat (r_num (snd p))) ?ss"
    by (simp add: rs comp_def)
  also have "\<dots> = map (\<lambda>p. Inr (fst p)) ?ss"
    by (rule map_cong) (auto simp: el)
  finally have "map (\<lambda>r. readFloat (r_num r)) rs = map Inr (map fst ?ss)"
    by (simp add: comp_def)
  moreover have "sorted (map fst ?ss)"
    by (rule sorted_sort_key)
  ultimately show "\<exists>ks. map (\<lambda>r. readFloat (r_num r)) rs = map Inr ks \<and> sorted ks"
    by blast
  have "mset rs = image_mset snd (mset (zip keys rows))"
    by (simp add: rs)
  also have "\<dots> = mset (map snd (zip keys rows))"
    by simp
  also have "\<dots> = mset rows"
    using len by simp
  finally show "mset rs = mset rows" .
qed

lemma setdefault_append_keys:
  "set (map fst (setdefault_append k v thms)) = insert k (set (map fst thms))"
  by (induction k v thms rule: setdefault_append.induct) auto

lemma setdefault_append_distinct:
  "distinct (map fst thms) \<Longrightarrow> distinct (map fst (setdefault_append k v thms))"
proof (induction k v thms rule: setdefault_append.induct)
  case (1 k v)
  show ?case by simp
next
  case (2 k v k' vs rest)
  then show ?case
    using setdefault_append_keys [of k v rest] by auto
qed

lemma setdefault_append_rows:
  "(k', rows) \<in> set (setdefault_append k v thms) \<Longrightarrow> r \<in> set rows \<Longrightarrow>
   (k' = k \<and> r = v) \<or> (\<exists>rows0. (k', rows0) \<in> set thms \<and> r \<in> set rows0)"
  by (induction k v thms rule: setdefault_append.induct) (auto split: if_splits)

lemma setdefault_append_mset:
  "mset (concat (map snd (setdefault_append k v thms))) =
   add_mset v (mset (concat (map snd thms)))"
  by (induction k v thms rule: setdefault_append.induct) auto

lemma group_inv_step:
  assumes "group_inv cat thms" "sets cat num = Some e"
    "getTheme cat (set_theme e) = Some (Inr th)"
  shows "group_inv cat (setdefault_append (snd th) (make_row e th num s) thms)"
  unfolding group_inv_def
proof (intro conjI allI impI)
  show "distinct (map fst (setdefault_append (snd th) (make_row e th num s) thms))"
    using assms(1) by (simp add: group_inv_def setdefault_append_distinct)
next
  fix k rows r
  assume a: "(k, rows) \<in> set (setdefault_append (snd th) (make_row e th num s) thms)"
    "r \<in> set rows"
  from setdefault_append_rows [OF a] assms
  show "snd (r_theme r) = k" "resolved cat r"
    by (auto simp: group_inv_def make_row_def resolved_def)
qed

lemma complete_groups_inv:
  "complete_groups cat data thms = Some (Inr res) \<Longrightarrow> group_inv cat thms \<Longrightarrow>
   group_inv cat res \<and>
   mset (map r_num (concat (map snd res))) =
     mset (map r_num (concat (map snd thms))) + mset (map fst data)"
proof (induction cat data thms rule: complete_groups.induct)
  case (1 cat thms)
  then show ?case by simp
next
  case (2 cat num s data thms)
  from "2.prems"(1) obtain e th where
    e: "sets cat num = Some e" and
    th: "getTheme cat (set_theme e) = Some (Inr th)" and
    rec: "complete_groups cat data (setdefault_append (snd th) (make_row e th num s) thms)
            = Some (Inr res)"
    by (auto split: option.splits sum.splits)
  from group_inv_step [OF "2.prems"(2) e th]
  have gi: "group_inv cat (setdefault_append (snd th) (make_row e th num s) thms)" .
  from "2.IH" [OF e th refl rec gi] show ?case
    by (simp add: setdefault_append_mset make_row_def)
qed

lemma sorted_replicate_concat:
  "sorted (map fst gs) \<Longrightarrow>
   sorted (concat (map (\<lambda>g. replicate (length (snd g)) (fst g)) gs))"
  by (induction gs) (auto simp: sorted_append)

lemma concat_sorted_props:
  "concat_sorted gs = Inr out \<Longrightarrow>
   (\<forall>k rows r. (k, rows) \<in> set gs \<longrightarrow> r \<in> set rows \<longrightarrow> snd (r_theme r) = k) \<Longrightarrow>
   map (\<lambda>r. snd (r_theme r)) out = concat (map (\<lambda>g. replicate (length (snd g)) (fst g)) gs) \<and>
   mset out = mset (concat (map snd gs))"
proof (induction gs arbitrary: out)
  case Nil
  then show ?case by simp
next
  case (Cons g gs)
  obtain k rows where g: "g = (k, rows)" by (cases g)
  from Cons.prems(1) g obtain rs rest where
    rs: "sorted_rows rows = Inr rs" and rest: "concat_sorted gs = Inr rest" and
    out: "out = rs @ rest"
    by (auto simp: bind_err_def split: sum.splits)
  from sorted_rows_Inr(2) [OF rs] have m: "mset rs = mset rows" .
  then have s: "set rs = set rows" by (rule mset_eq_setD)
  from m have l: "length rs = length rows" by (rule mset_eq_length)
  have lab: "map (\<lambda>r. snd (r_theme r)) rs = replicate (length rows) k"
  proof -
    have "\<forall>r\<in>set rs. snd (r_theme r) = k"
      using Cons.prems(2) s g by auto
    then have "map (\<lambda>r. snd (r_theme r)) rs = replicate (length rs) k"
      by (simp add: map_replicate_const [symmetric] cong: map_cong)
    with l show ?thesis by simp
  qed
  from Cons.IH [OF rest] Cons.prems(2) have
    ih: "map (\<lambda>r. snd (r_theme r)) rest =
          concat (map (\<lambda>g. replicate (length (snd g)) (fst g)) gs) \<and>
         mset rest = mset (concat (map snd gs))"
    by auto
  show ?case
    using ih lab m by (simp add: out g)
qed


lemma mset_concat_cong: "mset xs = mset ys \<Longrightarrow> mset (concat xs) = mset (concat ys)"
proof -
  assume a: "mset xs = mset ys"
  have "mset (concat xs) = sum_mset (image_mset mset (mset xs))" for xs :: "'a list list"
    by (induction xs) auto
  with a show ?thesis by simp
qed

lemma concat_sorted_filter:
  "concat_sorted gs = Inr out \<Longrightarrow> distinct (map fst gs) \<Longrightarrow>
   (\<forall>k rows r. (k, rows) \<in> set gs \<longrightarrow> r \<in> set rows \<longrightarrow> snd (r_theme r) = k) \<Longrightarrow>
   \<exists>ks. map (\<lambda>r. readFloat (r_num r)) (filter (\<lambda>r. snd (r_theme r) = l) out) = map Inr ks
     \<and> sorted ks"
proof (induction gs arbitrary: out)
  case Nil
  then show ?case by simp
next
  case (Cons g gs)
  obtain k rows where g: "g = (k, rows)" by (cases g)
  from Cons.prems(1) g obtain rs rest where
    rs: "sorted_rows rows = Inr rs" and rest: "concat_sorted gs = Inr rest" and
    out: "out = rs @ rest"
    by (auto simp: bind_err_def split: sum.splits)
  from sorted_rows_Inr(2) [OF rs] have "set rs = set rows" by (rule mset_eq_setD)
  with Cons.prems(3) g have labs: "\<forall>r\<in>set rs. snd (r_theme r) = k" by auto
  have p: "\<forall>k rows r. (k, rows) \<in> set gs \<longrightarrow> r \<in> set rows \<longrightarrow> snd (r_theme r) = k"
    using Cons.prems(3) by auto
  from concat_sorted_props [OF rest p] have "mset rest = mset (concat (map snd gs))"
    by simp
  then have "set rest = set (concat (map snd gs))"
    by (rule mset_eq_setD)
  with p have labr: "\<forall>r\<in>set rest. snd (r_theme r) \<in> set (map fst gs)"
    by force
  show ?case
  proof (cases "k = l")
    case True
    with Cons.prems(2) g have "l \<notin> set (map fst gs)" by simp
    with labr have "filter (\<lambda>r. snd (r_theme r) = l) rest = []"
      by (auto simp: filter_empty_conv)
    moreover from labs True have "filter (\<lambda>r. snd (r_theme r) = l) rs = rs"
      by (auto simp: filter_id_conv)
    ultimately show ?thesis
      using sorted_rows_Inr(1) [OF rs] by (simp add: out)
  next
    case False
    with labs have "filter (\<lambda>r. snd (r_theme r) = l) rs = []"
      by (auto simp: filter_empty_conv)
    moreover from Cons.IH [OF rest _ p] Cons.prems(2)
    have "\<exists>ks. map (\<lambda>r. readFloat (r_num r)) (filter (\<lambda>r. snd (r_theme r) = l) rest) = map Inr ks
        \<and> sorted ks"
      by simp
    ultimately show ?thesis by (simp add: out)
  qed
qed

lemma complete_Inr:
  assumes "complete cat data = Some (Inr out)"
  obtains thms where "complete_groups cat data [] = Some (Inr thms)"
    and "concat_sorted (sort_key fst thms) = Inr out"
    and "group_inv cat (sort_key fst thms)"
    and "mset (map r_num (concat (map snd thms))) = mset (map fst data)"
proof -
  from assms obtain thms where
    cg: "complete_groups cat data [] = Some (Inr thms)" and
    cs: "concat_sorted (sort_key fst thms) = Inr out"
    by (auto simp: complete_def split: option.splits sum.splits)
  have "group_inv cat []" by (simp add: group_inv_def)
  from complete_groups_inv [OF cg this] have
    gi: "group_inv cat thms" and
    ms: "mset (map r_num (concat (map snd thms))) = mset (map fst data)"
    by auto
  have "mset (map fst (sort_key fst thms)) = mset (map fst thms)"
    by simp
  then have "distinct (map fst (sort_key fst thms)) = distinct (map fst thms)"
    by (rule mset_eq_imp_distinct_iff)
  with gi have gi': "group_inv cat (sort_key fst thms)"
    by (simp add: group_inv_def)
  show ?thesis by (rule that [OF cg cs gi' ms])
qed

text \<open>
  Claim C1, as stated, fails: the groups are not ordered by the second component of the
  root theme (the sort key of the specification). \<^verbatim>\<open>complete\<close> sorts the items of the
  dictionary with \<^verbatim>\<open>key=lambda x: x[0]\<close>, the label. In the example the group of label
  \<open>Alpha\<close> and key 2 comes before the group of label \<open>Beta\<close> and key 1.
\<close>

theorem C1_counterexample:
  "\<exists>out. complete ex_cat2 [(''20-1'', new_stat None), (''1-9'', new_stat None)] = Some (Inr out) \<and>
     map r_theme out = [(2, ''Alpha''), (1, ''Beta'')] \<and>
     \<not> sorted (map (\<lambda>r. fst (r_theme r)) out)"
  by (simp add: ex2_complete_themes ex2_out_themes_def make_row_sel)

text \<open>
  Claim C1, amended. When \<^verbatim>\<open>complete\<close> returns, the rows are grouped by their resolved
  theme label and the groups are in ascending lexicographic order of the label alone:
  the sequence of the labels of the rows is sorted, every row carries the theme that
  \<^verbatim>\<open>getTheme\<close> resolves for its set, and the rows are those of the data, each once.
\<close>

theorem C1_complete_orders_groups_by_label:
  assumes "complete cat data = Some (Inr out)"
  shows "sorted (map (\<lambda>r. snd (r_theme r)) out) \<and>
         (\<forall>r\<in>set out. resolved cat r) \<and>
         mset (map r_num out) = mset (map fst data)"
proof -
  from assms obtain thms where
    cs: "concat_sorted (sort_key fst thms) = Inr out" and
    gi: "group_inv cat (sort_key fst thms)" and
    ms: "mset (map r_num (concat (map snd thms))) = mset (map fst data)"
    by (rule complete_Inr)
  let ?gs = "sort_key fst thms"
  from gi have p: "\<forall>k rows r. (k, rows) \<in> set ?gs \<longrightarrow> r \<in> set rows \<longrightarrow> snd (r_theme r) = k"
    by (simp add: group_inv_def)
  from concat_sorted_props [OF cs p] have
    labs: "map (\<lambda>r. snd (r_theme r)) out =
      concat (map (\<lambda>g. replicate (length (snd g)) (fst g)) ?gs)" and
    mo: "mset out = mset (concat (map snd ?gs))"
    by auto
  have "sorted (map fst ?gs)" by (rule sorted_sort_key)
  then have s: "sorted (map (\<lambda>r. snd (r_theme r)) out)"
    unfolding labs by (rule sorted_replicate_concat)
  have "mset (map snd ?gs) = mset (map snd thms)" by simp
  then have "mset (concat (map snd ?gs)) = mset (concat (map snd thms))"
    by (rule mset_concat_cong)
  with mo have mo': "mset out = mset (concat (map snd thms))" by simp
  then have "mset (map r_num out) = mset (map r_num (concat (map snd thms)))"
    by (metis mset_map)
  with ms have m: "mset (map r_num out) = mset (map fst data)" by simp
  have r: "\<forall>r\<in>set out. resolved cat r"
  proof
    fix r assume "r \<in> set out"
    with mo have "r \<in> set (concat (map snd ?gs))"
      by (metis mset_eq_setD)
    then obtain k rows where "(k, rows) \<in> set ?gs" "r \<in> set rows"
      by auto
    with gi show "resolved cat r" by (auto simp: group_inv_def)
  qed
  from s r m show ?thesis by simp
qed

theorem C1_complete_orders_groups_by_label_witness:
  "complete ex_cat2 [(''20-1'', new_stat None), (''1-9'', new_stat None)] =
     Some (Inr ex2_out_themes) \<and>
   sorted (map (\<lambda>r. snd (r_theme r)) ex2_out_themes) \<and>
   mset (map r_num ex2_out_themes) = mset [''20-1'', ''1-9'']"
  using C1_complete_orders_groups_by_label [OF ex2_complete_themes]
  by (simp add: ex2_complete_themes)

text \<open>
  Claim C4, as stated, fails: within a theme the rows are not ordered by the base digits
  and the variant digits compared as two integers. \<^verbatim>\<open>complete\<close> sorts on
  \<^verbatim>\<open>readFloat(x[0])\<close>, the float read from the number with the separator replaced by a
  decimal point. For \<open>1-9\<close> and \<open>1-10\<close> of one theme the two integers give \<open>(1, 9)\<close> before
  \<open>(1, 10)\<close>, while \<^verbatim>\<open>complete\<close> returns \<open>1-10\<close> (the float 1.1) before \<open>1-9\<close> (the float 1.9).
\<close>

theorem C4_counterexample:
  "\<exists>out. complete ex_cat2 [(''1-9'', new_stat None), (''1-10'', new_stat None)] = Some (Inr out) \<and>
     map r_num out = [''1-10'', ''1-9''] \<and>
     map (\<lambda>r. snd (r_theme r)) out = [''Alpha'', ''Alpha''] \<and>
     spec_number_key ''1-9'' = Some (1, 9) \<and> spec_number_key ''1-10'' = Some (1, 10) \<and>
     spec_number_less ''1-9'' ''1-10''"
  apply (simp add: ex2_complete_numbers ex2_out_numbers_def make_row_sel)
  apply code_simp
  done

lemma float_examples:
  "(\<exists>a b. readFloat ''9-1'' = Inr a \<and> readFloat ''10-1'' = Inr b \<and> a < b) \<and>
   (\<exists>a b. readFloat ''70-1'' = Inr a \<and> readFloat ''100-1'' = Inr b \<and> a < b)"
  by (simp add: readFloat_9_1 readFloat_10_1 readFloat_70_1 readFloat_100_1 less_pyfloat_def)

text \<open>
  Claim C4, amended. When \<^verbatim>\<open>complete\<close> returns, the rows of every theme label \<open>l\<close> are in
  ascending order of the float that \<^verbatim>\<open>readFloat\<close> reads from their number (the separator
  replaced by a decimal point); in that order \<open>9-1\<close> is before \<open>10-1\<close> and \<open>70-1\<close> is before
  \<open>100-1\<close>.
\<close>

theorem C4_complete_orders_rows_by_float:
  assumes "complete cat data = Some (Inr out)"
  shows "(\<exists>ks. map (\<lambda>r. readFloat (r_num r)) (filter (\<lambda>r. snd (r_theme r) = l) out) = map Inr ks
           \<and> sorted ks) \<and>
         (\<exists>a b. readFloat ''9-1'' = Inr a \<and> readFloat ''10-1'' = Inr b \<and> a < b) \<and>
         (\<exists>a b. readFloat ''70-1'' = Inr a \<and> readFloat ''100-1'' = Inr b \<and> a < b)"
proof -
  from assms obtain thms where
    cs: "concat_sorted (sort_key fst thms) = Inr out" and
    gi: "group_inv cat (sort_key fst thms)"
    by (rule complete_Inr)
  from gi have d: "distinct (map fst (sort_key fst thms))"
    and p: "\<forall>k rows r. (k, rows) \<in> set (sort_key fst thms) \<longrightarrow> r \<in> set rows
        \<longrightarrow> snd (r_theme r) = k"
    by (simp_all add: group_inv_def)
  from concat_sorted_filter [OF cs d p] float_examples show ?thesis
    by simp
qed

theorem C4_complete_orders_rows_by_float_witness:
  "complete ex_cat2 [(''1-9'', new_stat None), (''1-10'', new_stat None)] =
     Some (Inr ex2_out_numbers) \<and>
   (\<exists>ks. map (\<lambda>r. readFloat (r_num r))
           (filter (\<lambda>r. snd (r_theme r) = ''Alpha'') ex2_out_numbers) = map Inr ks
      \<and> sorted ks)"
  using C4_complete_orders_rows_by_float [OF ex2_complete_numbers, of "''Alpha''"]
  by (simp add: ex2_complete_numbers)

subsection \<open>Lines of a text\<close>

lemma is_linebreak_CR: "is_linebreak (CHR 0x0D)" "is_linebreak (CHR 0x0A)"
  by (simp_all add: is_linebreak_def)

lemma splitlines_from_plain:
  "\<not> list_ex is_linebreak l \<Longrightarrow>
   splitlines_from cur l = (if cur = [] \<and> l = [] then [] else [rev cur @ l])"
proof (induction l arbitrary: cur)
  case Nil
  show ?case by simp
next
  case (Cons c l)
  from Cons.prems have nb: "\<not> is_linebreak c" and rest: "\<not> list_ex is_linebreak l"
    by simp_all
  from nb have ncr: "c \<noteq> CHR 0x0D" using is_linebreak_CR(1) by auto
  show ?case
    using nb ncr Cons.IH [OF rest, of "c # cur"] by simp
qed

lemma skip_lf_plain:
  "l \<noteq> [] \<Longrightarrow> \<not> list_ex is_linebreak l \<Longrightarrow> skip_lf l = l"
  using is_linebreak_CR(2) by (cases l) (auto simp: skip_lf_def)

lemma skip_lf_append:
  "cs \<noteq> [] \<Longrightarrow> skip_lf (cs @ l) = skip_lf cs @ l"
  by (cases cs) (auto simp: skip_lf_def)

lemma skip_lf_last:
  "skip_lf cs \<noteq> [] \<Longrightarrow> last (skip_lf cs) = last cs"
  by (cases cs) (auto simp: skip_lf_def split: if_splits)

lemma splitlines_from_append:
  "s \<noteq> [] \<Longrightarrow> is_linebreak (last s) \<Longrightarrow> l \<noteq> [] \<Longrightarrow> \<not> list_ex is_linebreak l \<Longrightarrow>
   splitlines_from cur (s @ l) = splitlines_from cur s @ [l]"
proof (induction cur s rule: splitlines_from.induct)
  case (1 cur)
  then show ?case by simp
next
  case (2 cur c cs)
  note l = "2.prems"(3,4)
  show ?case
  proof (cases "c = CHR 0x0D")
    case True
    show ?thesis
    proof (cases "skip_lf cs = []")
      case e: True
      show ?thesis
      proof (cases "cs = []")
        case True
        with \<open>c = CHR 0x0D\<close> l show ?thesis
          by (simp add: skip_lf_plain splitlines_from_plain) (simp add: skip_lf_def)
      next
        case False
        with e \<open>c = CHR 0x0D\<close> l show ?thesis
          by (simp add: skip_lf_append splitlines_from_plain)
      qed
    next
      case ne: False
      then have cs: "cs \<noteq> []" by (auto simp: skip_lf_def)
      with "2.prems"(2) have "is_linebreak (last cs)" by simp
      with ne have lb: "is_linebreak (last (skip_lf cs))" by (simp add: skip_lf_last)
      from "2.IH"(1) [OF True ne lb l] True cs show ?thesis
        by (simp add: skip_lf_append)
    qed
  next
    case ncr: False
    show ?thesis
    proof (cases "is_linebreak c")
      case True
      show ?thesis
      proof (cases "cs = []")
        case e: True
        with True ncr l show ?thesis by (simp add: splitlines_from_plain)
      next
        case ne: False
        with "2.prems"(2) have "is_linebreak (last cs)" by simp
        from "2.IH"(2) [OF ncr True ne this l] True ncr show ?thesis by simp
      qed
    next
      case False
      with "2.prems"(2) have ne: "cs \<noteq> []" by auto
      with "2.prems"(2) have "is_linebreak (last cs)" by simp
      from "2.IH"(3) [OF ncr False ne this l] False ncr show ?thesis by simp
    qed
  qed
qed

lemma splitlines_trailing_line:
  assumes "s = [] \<or> is_linebreak (last s)" "l \<noteq> []" "\<not> list_ex is_linebreak l"
  shows "length (splitlines (s @ l)) = length (splitlines s) + 1"
proof (cases "s = []")
  case True
  with assms show ?thesis by (simp add: splitlines_def splitlines_from_plain)
next
  case False
  with assms have "is_linebreak (last s)" by simp
  from splitlines_from_append [OF False this assms(2,3)] show ?thesis
    by (simp add: splitlines_def)
qed

subsection \<open>\<^verbatim>\<open>deselectSet\<close>: what a flush writes\<close>

lemma lasty_loop_bounds:
  "lasty_loop sel rows y = Some n \<Longrightarrow> y \<le> n \<and> n < y + length rows"
  by (induction sel rows y rule: lasty_loop.induct) (auto split: if_splits)

lemma lasty_loop_first:
  "lasty_loop sel rows y = Some n \<Longrightarrow> sel \<in> cell_num ` set rows \<Longrightarrow>
   cell_num (rows ! (n - y)) = sel \<and> (\<forall>i<n - y. cell_num (rows ! i) \<noteq> sel)"
proof (induction sel rows y rule: lasty_loop.induct)
  case (1 sel y)
  then show ?case by simp
next
  case (2 sel r y)
  then show ?case by simp
next
  case (3 sel r r' rs y)
  show ?case
  proof (cases "cell_num r = sel")
    case True
    with "3.prems" show ?thesis by simp
  next
    case False
    with "3.prems" have l: "lasty_loop sel (r' # rs) (Suc y) = Some n"
      and m: "sel \<in> cell_num ` set (r' # rs)"
      by auto
    from lasty_loop_bounds [OF l] have b: "Suc y \<le> n" by simp
    from "3.IH" [OF False l m] have
      ih: "cell_num ((r' # rs) ! (n - Suc y)) = sel"
        "\<forall>i<n - Suc y. cell_num ((r' # rs) ! i) \<noteq> sel"
      by auto
    from b have e: "n - y = Suc (n - Suc y)" by simp
    show ?thesis
    proof (intro conjI allI impI)
      show "cell_num ((r # r' # rs) ! (n - y)) = sel"
        using ih(1) by (simp add: e)
      fix i assume "i < n - y"
      then show "cell_num ((r # r' # rs) ! i) \<noteq> sel"
        using ih(2) False e by (cases i) auto
    qed
  qed
qed

lemma deselectSet_Inr:
  assumes "deselectSet cat st = Inr st'"
  obtains sel ref ps fs lasty where
    "selected st = Some sel"
    "map_of (originalData st) sel = Some ref"
    "map_err (read_part (colors cat)) (partsTable st) = Inr ps"
    "map_err read_fig (figsTable st) = Inr fs"
    "lasty_loop sel (setsTable st) 0 = Some lasty"
    "st' = togglePanel
       (st \<lparr> originalData :=
               AList.update sel (ref \<lparr> st_mprts := ps, st_mfigs := fs, st_nts := notesArea st \<rparr>)
                 (originalData st),
             partsTable := [], figsTable := [], notesArea := [],
             setsTable := (setsTable st)
               [lasty := refresh_row (ref \<lparr> st_mprts := ps, st_mfigs := fs, st_nts := notesArea st \<rparr>)
                           (setsTable st ! lasty)] \<rparr>)"
  using assms
  by (auto simp: deselectSet_def bind_err_def Let_def split: option.splits sum.splits)

lemma togglePanel_fields:
  "originalData (togglePanel st) = originalData st"
  "setsTable (togglePanel st) = setsTable st"
  "partsTable (togglePanel st) = partsTable st"
  "figsTable (togglePanel st) = figsTable st"
  "notesArea (togglePanel st) = notesArea st"
  "selected (togglePanel st) = (case selected st of None \<Rightarrow> None | Some s \<Rightarrow> if s \<noteq> [] then None else Some s)"
  by (simp_all add: togglePanel_def split: option.splits)

lemma refresh_row_fields:
  "cell_num (refresh_row ref r) = cell_num r"
  "cell_qty (refresh_row ref r) = cell_qty r"
  "cell_bxs (refresh_row ref r) = cell_bxs r"
  "cell_ins (refresh_row ref r) = cell_ins r"
  "cell_wgh (refresh_row ref r) = cell_wgh r"
  "cell_mprts (refresh_row ref r) = str_int (sum_list (map (\<lambda>x. snd (snd x)) (st_mprts ref)))"
  "cell_mfigs (refresh_row ref r) = str_int (sum_list (map snd (st_mfigs ref)))"
  "cell_nts (refresh_row ref r) = str_int (int (length (splitlines (st_nts ref))))"
  by (simp_all add: refresh_row_def)

lemma map_cell_num_update:
  "y < length rows \<Longrightarrow> map cell_num (rows[y := refresh_row ref (rows ! y)]) = map cell_num rows"
  by (simp add: map_update refresh_row_fields list_update_same_conv)

lemma ex_colors:
  "colors ex_cat = [\<lparr> color_id = 5, color_name = ''Red'', color_rgb = [201, 26, 9],
                      color_group = 0 \<rparr>]"
  by (simp add: ex_cat_def)

lemma ex_deselect: "deselectSet ex_cat ex_st = Inr ex_st1"
  by (simp add: deselectSet_def ex_st_def ex_st1_def ex_colors read_part_def read_fig_def
      color_id_by_name_def bind_err_def py_int_1 py_int_2 togglePanel_def refresh_row_def
      new_stat_def ex_trow_def splitlines_ex str_int_1 str_int_2)

text \<open>
  Claim C5. When \<^verbatim>\<open>deselectSet\<close> returns for the selected set \<open>n\<close>, a set that has a row
  in the sets table: the record of \<open>n\<close> holds the missing parts and figs read from the
  tables of the detail panel and the text of the notes area, and in the first row of
  number \<open>n\<close> the cell of the missing parts shows the sum of the quantities of that list,
  the cell of the missing figs the sum of the quantities of that list, and the notes cell
  the number of lines of the stored notes. The number of lines of the empty text is 0,
  and a last line without a line end counts as a line.
\<close>

theorem C5_flush_refreshes_row:
  assumes "deselectSet cat st = Inr st'" "selected st = Some n"
    "n \<in> cell_num ` set (setsTable st)"
  shows "(\<exists>ref y.
      map_of (originalData st') n = Some ref \<and>
      map_err (read_part (colors cat)) (partsTable st) = Inr (st_mprts ref) \<and>
      map_err read_fig (figsTable st) = Inr (st_mfigs ref) \<and>
      st_nts ref = notesArea st \<and>
      y < length (setsTable st') \<and> cell_num (setsTable st' ! y) = n \<and>
      (\<forall>i<y. cell_num (setsTable st' ! i) \<noteq> n) \<and>
      cell_mprts (setsTable st' ! y) = str_int (\<Sum>p\<leftarrow>st_mprts ref. snd (snd p)) \<and>
      cell_mfigs (setsTable st' ! y) = str_int (\<Sum>f\<leftarrow>st_mfigs ref. snd f) \<and>
      cell_nts (setsTable st' ! y) = str_int (int (length (splitlines (st_nts ref))))) \<and>
    length (splitlines []) = 0 \<and>
    (\<forall>s l. (s = [] \<or> is_linebreak (last s)) \<longrightarrow> l \<noteq> [] \<longrightarrow> \<not> list_ex is_linebreak l
           \<longrightarrow> length (splitlines (s @ l)) = length (splitlines s) + 1)"
proof -
  from assms(1) obtain sel ref ps fs lasty where
    sel: "selected st = Some sel" and
    ref: "map_of (originalData st) sel = Some ref" and
    ps: "map_err (read_part (colors cat)) (partsTable st) = Inr ps" and
    fs: "map_err read_fig (figsTable st) = Inr fs" and
    ly: "lasty_loop sel (setsTable st) 0 = Some lasty" and
    st': "st' = togglePanel
       (st \<lparr> originalData :=
               AList.update sel (ref \<lparr> st_mprts := ps, st_mfigs := fs, st_nts := notesArea st \<rparr>)
                 (originalData st),
             partsTable := [], figsTable := [], notesArea := [],
             setsTable := (setsTable st)
               [lasty := refresh_row (ref \<lparr> st_mprts := ps, st_mfigs := fs, st_nts := notesArea st \<rparr>)
                           (setsTable st ! lasty)] \<rparr>)"
    by (rule deselectSet_Inr)
  let ?ref = "ref \<lparr> st_mprts := ps, st_mfigs := fs, st_nts := notesArea st \<rparr>"
  from sel assms(2) have n: "sel = n" by simp
  from lasty_loop_bounds [OF ly] have lb: "lasty < length (setsTable st)" by simp
  from lasty_loop_first [OF ly] assms(3) n have
    f1: "cell_num (setsTable st ! lasty) = n" and
    f2: "\<forall>i<lasty. cell_num (setsTable st ! i) \<noteq> n"
    by auto
  have tab: "setsTable st' = (setsTable st)[lasty := refresh_row ?ref (setsTable st ! lasty)]"
    by (simp add: st' togglePanel_fields)
  have od: "map_of (originalData st') n = Some ?ref"
    by (simp add: st' togglePanel_fields update_conv' n)
  have e0: "length (splitlines []) = 0"
    by (simp add: splitlines_def)
  have tl: "\<forall>s l. (s = [] \<or> is_linebreak (last s)) \<longrightarrow> l \<noteq> [] \<longrightarrow> \<not> list_ex is_linebreak l
           \<longrightarrow> length (splitlines (s @ l)) = length (splitlines s) + 1"
    using splitlines_trailing_line by blast
  have main: "\<exists>ref y.
      map_of (originalData st') n = Some ref \<and>
      map_err (read_part (colors cat)) (partsTable st) = Inr (st_mprts ref) \<and>
      map_err read_fig (figsTable st) = Inr (st_mfigs ref) \<and>
      st_nts ref = notesArea st \<and>
      y < length (setsTable st') \<and> cell_num (setsTable st' ! y) = n \<and>
      (\<forall>i<y. cell_num (setsTable st' ! i) \<noteq> n) \<and>
      cell_mprts (setsTable st' ! y) = str_int (\<Sum>p\<leftarrow>st_mprts ref. snd (snd p)) \<and>
      cell_mfigs (setsTable st' ! y) = str_int (\<Sum>f\<leftarrow>st_mfigs ref. snd f) \<and>
      cell_nts (setsTable st' ! y) = str_int (int (length (splitlines (st_nts ref))))"
  proof (intro exI [of _ ?ref] exI [of _ lasty] conjI)
    show "map_of (originalData st') n = Some ?ref" by (rule od)
    show "map_err (read_part (colors cat)) (partsTable st) = Inr (st_mprts ?ref)"
      using ps by simp
    show "map_err read_fig (figsTable st) = Inr (st_mfigs ?ref)"
      using fs by simp
    show "st_nts ?ref = notesArea st" by simp
    show "lasty < length (setsTable st')" using lb by (simp add: tab)
    show "cell_num (setsTable st' ! lasty) = n"
      using lb f1 by (simp add: tab refresh_row_fields)
    show "\<forall>i<lasty. cell_num (setsTable st' ! i) \<noteq> n"
      using f2 by (simp add: tab)
    show "cell_mprts (setsTable st' ! lasty) = str_int (\<Sum>p\<leftarrow>st_mprts ?ref. snd (snd p))"
      using lb by (simp add: tab refresh_row_fields)
    show "cell_mfigs (setsTable st' ! lasty) = str_int (\<Sum>f\<leftarrow>st_mfigs ?ref. snd f)"
      using lb by (simp add: tab refresh_row_fields)
    show "cell_nts (setsTable st' ! lasty) = str_int (int (length (splitlines (st_nts ?ref))))"
      using lb by (simp add: tab refresh_row_fields)
  qed
  from main e0 tl show ?thesis by blast
qed

theorem C5_flush_refreshes_row_witness:
  "deselectSet ex_cat ex_st = Inr ex_st1 \<and> selected ex_st = Some ''7140-1'' \<and>
   ''7140-1'' \<in> cell_num ` set (setsTable ex_st) \<and>
   st_mprts (the (map_of (originalData ex_st1) ''7140-1'')) = [(''3001'', 5, 2)] \<and>
   cell_mprts (setsTable ex_st1 ! 0) = str_int 2"
proof -
  have h: "selected ex_st = Some ''7140-1''"
    "''7140-1'' \<in> cell_num ` set (setsTable ex_st)"
    by (simp_all add: ex_st_def ex_trow_def)
  from C5_flush_refreshes_row [OF ex_deselect h] show ?thesis
    using ex_deselect h by (simp add: ex_st1_def str_int_2)
qed

subsection \<open>Flushing twice\<close>

lemma deselectSet_selected:
  assumes "deselectSet cat st = Inr st'" "selected st = Some n" "n \<noteq> []"
  shows "selected st' = None" "partsTable st' = []" "figsTable st' = []" "notesArea st' = []"
proof -
  from assms(1) obtain sel ref ps fs lasty where
    sel: "selected st = Some sel" and
    st': "st' = togglePanel
       (st \<lparr> originalData :=
               AList.update sel (ref \<lparr> st_mprts := ps, st_mfigs := fs, st_nts := notesArea st \<rparr>)
                 (originalData st),
             partsTable := [], figsTable := [], notesArea := [],
             setsTable := (setsTable st)
               [lasty := refresh_row (ref \<lparr> st_mprts := ps, st_mfigs := fs, st_nts := notesArea st \<rparr>)
                           (setsTable st ! lasty)] \<rparr>)"
    by (rule deselectSet_Inr)
  from sel assms(2,3) show "selected st' = None" "partsTable st' = []" "figsTable st' = []"
    "notesArea st' = []"
    by (simp_all add: st' togglePanel_fields)
qed





subsection \<open>Removing the selected set\<close>

lemma deselectSet_keeps:
  assumes "deselectSet cat st = Inr st'" "selected st = Some n"
  shows "map_of (originalData st') n \<noteq> None"
    and "map cell_num (setsTable st') = map cell_num (setsTable st)"
    and "map fst (originalData st') = map fst (originalData st)"
proof -
  from assms(1) obtain sel ref ps fs lasty where
    sel: "selected st = Some sel" and
    ref: "map_of (originalData st) sel = Some ref" and
    ly: "lasty_loop sel (setsTable st) 0 = Some lasty" and
    st': "st' = togglePanel
       (st \<lparr> originalData :=
               AList.update sel (ref \<lparr> st_mprts := ps, st_mfigs := fs, st_nts := notesArea st \<rparr>)
                 (originalData st),
             partsTable := [], figsTable := [], notesArea := [],
             setsTable := (setsTable st)
               [lasty := refresh_row (ref \<lparr> st_mprts := ps, st_mfigs := fs, st_nts := notesArea st \<rparr>)
                           (setsTable st ! lasty)] \<rparr>)"
    by (rule deselectSet_Inr)
  from sel assms(2) have n: "sel = n" by simp
  from lasty_loop_bounds [OF ly] have lb: "lasty < length (setsTable st)" by simp
  show "map_of (originalData st') n \<noteq> None"
    by (simp add: st' togglePanel_fields update_conv' n)
  show "map cell_num (setsTable st') = map cell_num (setsTable st)"
    using lb by (simp add: st' togglePanel_fields map_cell_num_update)
  from ref have "sel \<in> set (map fst (originalData st))"
    by (metis map_of_eq_None_iff option.distinct(1) set_map)
  then show "map fst (originalData st') = map fst (originalData st)"
    by (simp add: st' togglePanel_fields update_keys)
qed

lemma remove_row_Some:
  "n \<in> set (map cell_num rows) \<Longrightarrow> \<exists>rows'. remove_row n rows = Some rows'"
  by (induction rows) auto

lemma complete_numbers:
  assumes "complete cat data = Some (Inr out)"
  shows "mset (map r_num out) = mset (map fst data)"
proof -
  from assms obtain thms where
    cs: "concat_sorted (sort_key fst thms) = Inr out" and
    gi: "group_inv cat (sort_key fst thms)" and
    ms: "mset (map r_num (concat (map snd thms))) = mset (map fst data)"
    by (rule complete_Inr)
  from gi have p: "\<forall>k rows r. (k, rows) \<in> set (sort_key fst thms) \<longrightarrow> r \<in> set rows
      \<longrightarrow> snd (r_theme r) = k"
    by (simp add: group_inv_def)
  from concat_sorted_props [OF cs p] have
    mo: "mset out = mset (concat (map snd (sort_key fst thms)))"
    by simp
  have "mset (map snd (sort_key fst thms)) = mset (map snd thms)" by simp
  then have "mset (concat (map snd (sort_key fst thms))) = mset (concat (map snd thms))"
    by (rule mset_concat_cong)
  with mo have "mset out = mset (concat (map snd thms))" by simp
  then have "mset (map r_num out) = mset (map r_num (concat (map snd thms)))"
    by (metis mset_map)
  with ms show ?thesis by simp
qed

lemma set_number_7140: "set_number ''7140'' = ''7140-1''"
  by (simp add: set_number_def)

lemma ex_remove: "removeSet ex_cat ex_st ''7140'' = Inr (ex_st2, None)"
  by (simp add: removeSet_def ex_deselect bind_err_def set_number_7140 ex_st1_def ex_st2_def
      ex_trow_def)

text \<open>
  Claim C3, as stated, fails: \<^verbatim>\<open>removeSet\<close> begins with \<^verbatim>\<open>self.deselectSet()\<close>, so the
  buffers of the detail panel are flushed into the record before anything is removed. With
  a quantity in the parts table that \<^verbatim>\<open>int\<close> rejects, the flush raises \<open>ValueError\<close> and the
  selected set, which has a record and a row, is not removed.
\<close>

theorem C3_counterexample:
  "selected ex_st_bad = Some ''7140-1'' \<and> set_number ''7140'' = ''7140-1'' \<and>
   map_of (originalData ex_st_bad) ''7140-1'' = Some (new_stat None) \<and>
   remove_row ''7140-1'' (setsTable ex_st_bad) = Some [] \<and>
   removeSet ex_cat ex_st_bad ''7140'' = Inl ValueError"
  by (simp add: ex_st_bad_def ex_st_def set_number_7140 ex_trow_def removeSet_def deselectSet_def
      bind_err_def ex_colors read_part_def color_id_by_name_def py_int_two)

text \<open>
  Claim C3, amended. Removing the set that is currently selected first flushes the buffers
  of the detail panel into its record (\<^verbatim>\<open>deselectSet\<close>). If the flush raises, \<^verbatim>\<open>removeSet\<close>
  raises the same exception and removes nothing. If the flush returns, \<^verbatim>\<open>removeSet\<close>
  returns with no selection, with the record of the set deleted from the flushed
  \<^verbatim>\<open>originalData\<close>, with its first row removed from the flushed table, and \<^verbatim>\<open>complete\<close> on
  the remaining data has no row of that number.
\<close>

theorem C3_remove_selected_flushes_first:
  assumes "selected st = Some n" "n \<noteq> []" "set_number text = n"
    "n \<in> cell_num ` set (setsTable st)"
  shows "(\<forall>e. deselectSet cat st = Inl e \<longrightarrow> removeSet cat st text = Inl e) \<and>
    (\<forall>st1. deselectSet cat st = Inr st1 \<longrightarrow>
       (\<exists>st'. removeSet cat st text = Inr (st', None) \<and>
          selected st' = None \<and>
          originalData st' = AList.delete n (originalData st1) \<and>
          n \<notin> fst ` set (originalData st') \<and>
          remove_row n (setsTable st1) = Some (setsTable st') \<and>
          (\<forall>out. complete cat (originalData st') = Some (Inr out) \<longrightarrow> n \<notin> r_num ` set out)))"
proof (intro conjI allI impI)
  fix e assume "deselectSet cat st = Inl e"
  then show "removeSet cat st text = Inl e"
    by (simp add: removeSet_def bind_err_def)
next
  fix st1 assume d: "deselectSet cat st = Inr st1"
  from deselectSet_keeps [OF d assms(1)] obtain ref where
    ref: "map_of (originalData st1) n = Some ref" and
    nums: "map cell_num (setsTable st1) = map cell_num (setsTable st)"
    by auto
  from assms(4) nums have "n \<in> set (map cell_num (setsTable st1))"
    by simp
  from remove_row_Some [OF this] obtain rows' where
    rr: "remove_row n (setsTable st1) = Some rows'" ..
  let ?st' = "st1 \<lparr> setsTable := rows', originalData := AList.delete n (originalData st1) \<rparr>"
  have r: "removeSet cat st text = Inr (?st', None)"
    using d ref rr assms(3) by (simp add: removeSet_def bind_err_def Let_def)
  have nk: "n \<notin> fst ` set (originalData ?st')"
    by (simp add: delete_notin_dom)
  have nc: "\<forall>out. complete cat (originalData ?st') = Some (Inr out) \<longrightarrow> n \<notin> r_num ` set out"
  proof (intro allI impI)
    fix out assume "complete cat (originalData ?st') = Some (Inr out)"
    from complete_numbers [OF this]
    have "set (map r_num out) = set (map fst (originalData ?st'))"
      by (rule mset_eq_setD)
    with nk show "n \<notin> r_num ` set out" by simp
  qed
  from deselectSet_selected(1) [OF d assms(1,2)] have "selected ?st' = None" by simp
  with r rr nk nc
  show "\<exists>st'. removeSet cat st text = Inr (st', None) \<and>
          selected st' = None \<and>
          originalData st' = AList.delete n (originalData st1) \<and>
          n \<notin> fst ` set (originalData st') \<and>
          remove_row n (setsTable st1) = Some (setsTable st') \<and>
          (\<forall>out. complete cat (originalData st') = Some (Inr out) \<longrightarrow> n \<notin> r_num ` set out)"
    by (intro exI [of _ ?st']) simp
qed

theorem C3_remove_selected_flushes_first_witness:
  "selected ex_st = Some ''7140-1'' \<and> set_number ''7140'' = ''7140-1'' \<and>
   ''7140-1'' \<in> cell_num ` set (setsTable ex_st) \<and>
   deselectSet ex_cat ex_st = Inr ex_st1 \<and>
   removeSet ex_cat ex_st ''7140'' = Inr (ex_st2, None) \<and>
   originalData ex_st2 = AList.delete ''7140-1'' (originalData ex_st1)"
proof -
  have h: "selected ex_st = Some ''7140-1''" "''7140-1'' \<noteq> []"
    "set_number ''7140'' = ''7140-1''" "''7140-1'' \<in> cell_num ` set (setsTable ex_st)"
    by (simp_all add: ex_st_def ex_trow_def set_number_7140)
  from C3_remove_selected_flushes_first [OF h, of ex_cat] ex_deselect ex_remove
  show ?thesis
    using h by auto
qed


subsection \<open>Adding a set that is already there\<close>

lemma str_int_0: "str_int 0 = ''0''" by code_simp
lemma str_int_100: "str_int 100 = ''100''" by code_simp
lemma py_int_0: "py_int ''0'' = Inr 0" by code_simp




subsection \<open>\<^verbatim>\<open>save\<close> and the weight\<close>

lemma weight_of_text_nonzero: "weight_of_text t = Inr w \<Longrightarrow> w \<noteq> Some 0"
  by (auto simp: weight_of_text_def bind_err_def split: sum.splits if_splits)

lemma bind_err_Inr:
  "bind_err m f = Inr y \<Longrightarrow> \<exists>x. m = Inr x \<and> f x = Inr y"
  by (cases m) (simp_all add: bind_err_def)

lemma save_row_Inr:
  assumes "save_row r od = Inr od'"
  shows "map fst od' = map fst od"
    and "\<exists>s. map_of od' (cell_num r) = Some s \<and> st_wgh s \<noteq> Some 0"
    and "k \<noteq> cell_num r \<Longrightarrow> map_of od' k = map_of od k"
proof -
  from assms obtain ref where ref: "map_of od (cell_num r) = Some ref"
    by (cases "map_of od (cell_num r)") (simp_all add: save_row_def)
  with assms have "bind_err (py_int (cell_qty r)) (\<lambda>q.
          bind_err (py_int (cell_bxs r)) (\<lambda>b.
          bind_err (py_int (cell_ins r)) (\<lambda>i.
          bind_err (weight_of_text (cell_wgh r)) (\<lambda>w.
            Inr (AList.update (cell_num r)
                   (ref \<lparr> st_qty := q, st_bxs := b, st_ins := i, st_wgh := w \<rparr>) od))))) = Inr od'"
    by (simp add: save_row_def)
  then obtain q b i w where
    w: "weight_of_text (cell_wgh r) = Inr w" and
    od': "od' = AList.update (cell_num r)
                   (ref \<lparr> st_qty := q, st_bxs := b, st_ins := i, st_wgh := w \<rparr>) od"
    by (auto dest!: bind_err_Inr)
  from ref have "cell_num r \<in> set (map fst od)"
    by (metis map_of_eq_None_iff option.distinct(1) set_map)
  then show "map fst od' = map fst od"
    by (simp add: od' update_keys)
  from weight_of_text_nonzero [OF w]
  show "\<exists>s. map_of od' (cell_num r) = Some s \<and> st_wgh s \<noteq> Some 0"
    by (simp add: od' update_conv')
  show "k \<noteq> cell_num r \<Longrightarrow> map_of od' k = map_of od k"
    by (simp add: od' update_conv')
qed

lemma save_rows_keys:
  "save_rows rs od = Inr od' \<Longrightarrow> map fst od' = map fst od"
proof (induction rs arbitrary: od)
  case Nil
  then show ?case by simp
next
  case (Cons r rs)
  from Cons.prems obtain od1 where
    a: "save_row r od = Inr od1" and b: "save_rows rs od1 = Inr od'"
    by (auto dest!: bind_err_Inr)
  from Cons.IH [OF b] save_row_Inr(1) [OF a] show ?case by simp
qed

lemma save_rows_other:
  "save_rows rs od = Inr od' \<Longrightarrow> k \<notin> cell_num ` set rs \<Longrightarrow> map_of od' k = map_of od k"
proof (induction rs arbitrary: od)
  case Nil
  then show ?case by simp
next
  case (Cons r rs)
  from Cons.prems(1) obtain od1 where
    a: "save_row r od = Inr od1" and b: "save_rows rs od1 = Inr od'"
    by (auto dest!: bind_err_Inr)
  from Cons.prems(2) have k: "k \<noteq> cell_num r" "k \<notin> cell_num ` set rs" by auto
  from Cons.IH [OF b k(2)] save_row_Inr(3) [OF a k(1)] show ?case by simp
qed

lemma save_rows_weight:
  "save_rows rs od = Inr od' \<Longrightarrow> k \<in> cell_num ` set rs \<Longrightarrow> map_of od' k = Some s
     \<Longrightarrow> st_wgh s \<noteq> Some 0"
proof (induction rs arbitrary: od)
  case Nil
  then show ?case by simp
next
  case (Cons r rs)
  from Cons.prems(1) obtain od1 where
    a: "save_row r od = Inr od1" and b: "save_rows rs od1 = Inr od'"
    by (auto dest!: bind_err_Inr)
  show ?case
  proof (cases "k \<in> cell_num ` set rs")
    case True
    from Cons.IH [OF b True Cons.prems(3)] show ?thesis .
  next
    case False
    with Cons.prems(2) have k: "k = cell_num r" by simp
    from save_rows_other [OF b False] Cons.prems(3) have "map_of od1 k = Some s" by simp
    with save_row_Inr(2) [OF a] k show ?thesis by simp
  qed
qed

lemma deselect_if_selected_keeps:
  assumes "deselect_if_selected cat st = Inr st1"
  shows "map cell_num (setsTable st1) = map cell_num (setsTable st) \<and>
    map fst (originalData st1) = map fst (originalData st)"
proof (cases "selected st")
  case None
  with assms show ?thesis by (simp add: deselect_if_selected_def)
next
  case (Some n)
  show ?thesis
  proof (cases "n = []")
    case True
    with Some assms show ?thesis by (simp add: deselect_if_selected_def)
  next
    case False
    with Some assms have "deselectSet cat st = Inr st1"
      by (simp add: deselect_if_selected_def)
    from deselectSet_keeps(2,3) [OF this Some] show ?thesis by simp
  qed
qed

lemma dict_of_fold:
  "distinct (map fst acc) \<Longrightarrow>
   distinct (map fst (fold (\<lambda>kv od. AList.update (fst kv) (snd kv) od) data acc)) \<and>
   fst ` set (fold (\<lambda>kv od. AList.update (fst kv) (snd kv) od) data acc) =
     fst ` set data \<union> fst ` set acc"
  by (induction data arbitrary: acc) (auto simp: distinct_update dom_update)

lemma init_inv:
  assumes "init cat data = Some (Inr (st, out, tot))"
  shows "store_inv st"
proof -
  from assms obtain cd where c: "complete cat data = Some (Inr cd)"
    by (auto simp: init_def split: option.splits sum.splits)
  with assms have st: "originalData st = dict_of data" "setsTable st = map addSetRow cd"
    by (auto simp: init_def dest!: bind_err_Inr)
  from complete_numbers [OF c] have "set (map r_num cd) = set (map fst data)"
    by (rule mset_eq_setD)
  then have "cell_num ` set (setsTable st) = fst ` set data"
    by (simp add: st image_image addSetRow_def)
  with dict_of_fold [of "[]" data] show ?thesis
    by (simp add: store_inv_def st dict_of_def)
qed

lemma deselect_if_selected_inv:
  assumes "deselect_if_selected cat st = Inr st1" "store_inv st"
  shows "store_inv st1"
proof -
  from deselect_if_selected_keeps [OF assms(1)] have
    "set (map cell_num (setsTable st1)) = set (map cell_num (setsTable st))"
    "map fst (originalData st1) = map fst (originalData st)"
    by simp_all
  then have "cell_num ` set (setsTable st1) = cell_num ` set (setsTable st)"
    "map fst (originalData st1) = map fst (originalData st)"
    "fst ` set (originalData st1) = fst ` set (originalData st)"
    by (simp_all, metis set_map)
  with assms(2) show ?thesis by (simp add: store_inv_def)
qed

lemma addSet_inv:
  assumes "addSet cat st text fetched = Some (Inr st')" "store_inv st"
  shows "store_inv st'"
proof (cases "sets cat (set_number text)")
  case None
  with assms show ?thesis
    by (simp add: addSet_def getSet_def Let_def)
next
  case (Some e)
  with assms(1) obtain wgh tr where
    st': "st' = st \<lparr> originalData := AList.update (set_number text) (new_stat wgh) (originalData st),
                     setsTable := setsTable st @ [tr] \<rparr>" and
    r: "cell_num tr = set_number text"
    by (auto simp: addSet_def getSet_def Let_def addSetRow_def split: option.splits sum.splits)
  have "fst ` set (AList.update (set_number text) (new_stat wgh) (originalData st)) =
      {set_number text} \<union> fst ` set (originalData st)"
    by (rule dom_update)
  with assms(2) r show ?thesis
    by (auto simp: store_inv_def st' distinct_update)
qed

lemma remove_row_other:
  "remove_row n rows = Some rows' \<Longrightarrow> k \<noteq> n \<Longrightarrow> k \<in> cell_num ` set rows
     \<Longrightarrow> k \<in> cell_num ` set rows'"
  by (induction rows arbitrary: rows') (auto split: if_splits)

lemma removeSet_inv:
  assumes "removeSet cat st text = Inr (st', r)" "store_inv st"
  shows "store_inv st'"
proof -
  from assms(1) obtain st1 where d: "deselectSet cat st = Inr st1"
    by (auto simp: removeSet_def dest!: bind_err_Inr)
  from d obtain n where n: "selected st = Some n"
    by (rule deselectSet_Inr)
  from deselectSet_keeps(2,3) [OF d n] have
    "set (map cell_num (setsTable st1)) = set (map cell_num (setsTable st))"
    "map fst (originalData st1) = map fst (originalData st)"
    by simp_all
  then have "cell_num ` set (setsTable st1) = cell_num ` set (setsTable st)"
    "map fst (originalData st1) = map fst (originalData st)"
    "fst ` set (originalData st1) = fst ` set (originalData st)"
    by (simp_all, metis set_map)
  with assms(2) have i1: "store_inv st1" by (simp add: store_inv_def)
  from assms(1) d show ?thesis
  proof (cases "remove_row (set_number text) (setsTable st1)")
    case None
    with assms(1) d i1 show ?thesis
      by (simp add: removeSet_def bind_err_def Let_def)
  next
    case (Some rows)
    with assms(1) d have st': "st' = st1 \<lparr> setsTable := rows,
        originalData := AList.delete (set_number text) (originalData st1) \<rparr>"
      by (auto simp: removeSet_def bind_err_def Let_def split: option.splits)
    have "fst ` set (AList.delete (set_number text) (originalData st1)) \<subseteq> cell_num ` set rows"
    proof
      fix k assume k: "k \<in> fst ` set (AList.delete (set_number text) (originalData st1))"
      then have "k \<noteq> set_number text" "k \<in> fst ` set (originalData st1)"
        using delete_notin_dom [of "set_number text" "originalData st1"]
          dom_delete_subset [of "set_number text" "originalData st1"]
        by blast+
      with i1 have "k \<in> cell_num ` set (setsTable st1)"
        by (auto simp: store_inv_def)
      from remove_row_other [OF Some \<open>k \<noteq> set_number text\<close> this]
      show "k \<in> cell_num ` set rows" .
    qed
    with i1 show ?thesis
      by (simp add: store_inv_def st' distinct_delete)
  qed
qed

lemma ex_init:
  "map_option (map_sum id fst) (init ex_cat [(''7140-1'', new_stat (Some 0))]) =
     Some (Inr ex_st0)"
  by (simp add: init_def complete_def ex_sets ex_theme make_row_def new_stat_def wgh_or_blank_def
      splitlines_def sorted_rows_def bind_err_def readFloat_7140_1 updateStatusBar_sums
      row_weight_def py_truediv_0 py_round_0 dict_of_def ex_st0_def ex_trow_def addSetRow_def
      str_weight_def str_int_0 str_int_1 str_int_100)

lemma ex_save:
  "save ex_cat ex_st0 =
     Inr (ex_st0 \<lparr> originalData := [(''7140-1'', new_stat None)] \<rparr>, [(''7140-1'', new_stat None)])"
  by (simp add: save_def deselect_if_selected_def ex_st0_def bind_err_def save_row_def ex_trow_def
      py_int_0 py_int_1 weight_of_text_def new_stat_def)

text \<open>
  Claim C10. When \<^verbatim>\<open>save\<close> returns from a state in which every record has a row, no record
  of the persisted output has the weight 0, and the state keeps that invariant;
  \<^verbatim>\<open>int(text or 0) or None\<close> maps the blank cell and the cell \<open>0\<close> to \<open>None\<close>; and a record
  whose weight is \<open>None\<close> or 0 gets, in the row that \<^verbatim>\<open>complete\<close> builds, the weight \<^verbatim>\<open>""\<close>,
  shown as the empty text. So a weight of 0 grams does not survive loading and saving.
\<close>

theorem C10_save_weight_never_zero:
  "(\<forall>st' out k s. save cat st = Inr (st', out) \<longrightarrow> store_inv st \<longrightarrow> (k, s) \<in> set out
       \<longrightarrow> st_wgh s \<noteq> Some 0 \<and> store_inv st') \<and>
   weight_of_text [] = Inr None \<and> weight_of_text ''0'' = Inr None \<and>
   (\<forall>e th num s. st_wgh s = None \<or> st_wgh s = Some 0 \<longrightarrow>
       r_wgh (make_row e (th :: 'c \<times> string) num s) = Blank \<and>
       cell_wgh (addSetRow (make_row e th num s)) = [])"
proof -
  have a: "st_wgh s \<noteq> Some 0 \<and> store_inv st'"
    if sv: "save cat st = Inr (st', out)" and inv: "store_inv st" and ks: "(k, s) \<in> set out"
    for st' out k s
  proof -
    from inv have di: "distinct (map fst (originalData st))"
      and cov: "fst ` set (originalData st) \<subseteq> cell_num ` set (setsTable st)"
      by (simp_all add: store_inv_def)
    from sv obtain st1 where
      d: "deselect_if_selected cat st = Inr st1" and
      sr: "save_rows (setsTable st1) (originalData st1) = Inr out" and
      st': "st' = st1 \<lparr> originalData := out \<rparr>"
      by (auto simp: save_def dest!: bind_err_Inr)
    from deselect_if_selected_keeps [OF d] have
      kn: "map cell_num (setsTable st1) = map cell_num (setsTable st)" and
      kf: "map fst (originalData st1) = map fst (originalData st)"
      by simp_all
    from save_rows_keys [OF sr] kf have ko: "map fst out = map fst (originalData st)" by simp
    with di have dout: "distinct (map fst out)" by simp
    with ks have m: "map_of out k = Some s" by simp
    have rows: "cell_num ` set (setsTable st) = cell_num ` set (setsTable st1)"
      using kn by (metis set_map)
    have keys: "fst ` set out = fst ` set (originalData st)"
      using ko by (metis set_map)
    from ks have "k \<in> fst ` set out" by force
    with keys cov rows have "k \<in> cell_num ` set (setsTable st1)" by auto
    from save_rows_weight [OF sr this m] have w: "st_wgh s \<noteq> Some 0" .
    from dout keys cov rows have "store_inv st'"
      by (simp add: store_inv_def st')
    with w show ?thesis by simp
  qed
  have b: "weight_of_text [] = Inr None"
    by (simp add: weight_of_text_def bind_err_def)
  have c: "weight_of_text ''0'' = Inr None"
    by (simp add: weight_of_text_def bind_err_def py_int_0)
  have d: "r_wgh (make_row e th num s) = Blank \<and> cell_wgh (addSetRow (make_row e th num s)) = []"
    if "st_wgh s = None \<or> st_wgh s = Some 0"
    for e and th :: "'c \<times> string" and num and s :: stat
    using that by (auto simp: make_row_def wgh_or_blank_def addSetRow_def str_weight_def)
  from a b c d show ?thesis by blast
qed

theorem C10_save_weight_never_zero_witness:
  "save ex_cat ex_st0 =
     Inr (ex_st0 \<lparr> originalData := [(''7140-1'', new_stat None)] \<rparr>, [(''7140-1'', new_stat None)]) \<and>
   map_of (originalData ex_st0) ''7140-1'' = Some (new_stat (Some 0)) \<and>
   store_inv ex_st0 \<and>
   st_wgh (new_stat None) \<noteq> Some 0 \<and>
   cell_wgh (addSetRow (make_row (ex_set ''A'' 1) (1 :: int, ''Alpha'') ''1-9'' (new_stat (Some 0)))) = []"
proof -
  have h: "store_inv ex_st0"
    "map_of (originalData ex_st0) ''7140-1'' = Some (new_stat (Some 0))"
    by (simp_all add: store_inv_def ex_st0_def ex_trow_def)
  have m: "(''7140-1'', new_stat None) \<in> set [(''7140-1'', new_stat None)]" by simp
  have w: "st_wgh (new_stat (Some 0)) = None \<or> st_wgh (new_stat (Some 0)) = Some 0"
    by (simp add: new_stat_def)
  from C10_save_weight_never_zero [of ex_cat ex_st0] ex_save h m w
  show ?thesis by blast
qed

end
